theory Spec2Isabelle
  imports Main "HOL-Library.Multiset" "HOL-Library.Char_ord" "HOL-Library.List_Lexorder"
begin

section \<open>Values and types of the configuration record\<close>

text \<open>
  \<^verbatim>\<open>util/config.go\<close> reads and writes the fields of \<^verbatim>\<open>ConfigType\<close> through package
  \<^verbatim>\<open>reflect\<close>, by field name. A struct is therefore modelled the way reflection sees
  it: a type name and the ordered list of its fields, each a name with a value. Every
  value carries its Go type, because \<^verbatim>\<open>reflect.Value.Set\<close> compares types.
  Strings are byte strings (\<^typ>\<open>char\<close> is a byte), \<^verbatim>\<open>int\<close> is the 64-bit integer of
  the usual targets.
\<close>

datatype gotype =
    T_string | T_int | T_bool
  | T_DbDriver | T_GitClientId
  | T_strings | T_options | T_providers
  | T_struct string

datatype kind = KInvalid | KBool | KInt | KString | KSlice | KMap | KStruct | KPtr

datatype goval =
    VString string
  | VInt int
  | VBool bool
  | VDbDriver string
  | VGitClientId string
  | VStrings "string list"
  | VOptions "(string \<times> string) list"
  | VProviders "(string \<times> goval) list"
  | VStruct string "(string \<times> goval) list"

fun type_of :: "goval \<Rightarrow> gotype" where
  "type_of (VString _) = T_string"
| "type_of (VInt _) = T_int"
| "type_of (VBool _) = T_bool"
| "type_of (VDbDriver _) = T_DbDriver"
| "type_of (VGitClientId _) = T_GitClientId"
| "type_of (VStrings _) = T_strings"
| "type_of (VOptions _) = T_options"
| "type_of (VProviders _) = T_providers"
| "type_of (VStruct n _) = T_struct n"

fun kind_of :: "gotype \<Rightarrow> kind" where
  "kind_of T_string = KString"
| "kind_of T_int = KInt"
| "kind_of T_bool = KBool"
| "kind_of T_DbDriver = KString"
| "kind_of T_GitClientId = KString"
| "kind_of T_strings = KSlice"
| "kind_of T_options = KMap"
| "kind_of T_providers = KMap"
| "kind_of (T_struct _) = KStruct"

text \<open>The struct declarations of the source, field by field, in declaration order.\<close>

definition DbConfig_fields :: "(string \<times> gotype) list" where
  "DbConfig_fields =
    [(''Dialect'', T_DbDriver), (''Hostname'', T_string), (''Username'', T_string),
     (''Password'', T_string), (''DbName'', T_string), (''Options'', T_options)]"

definition ldapMappings_fields :: "(string \<times> gotype) list" where
  "ldapMappings_fields =
    [(''DN'', T_string), (''Mail'', T_string), (''UID'', T_string), (''CN'', T_string)]"

definition oidcEndpoint_fields :: "(string \<times> gotype) list" where
  "oidcEndpoint_fields =
    [(''IssuerURL'', T_string), (''AuthURL'', T_string), (''TokenURL'', T_string),
     (''UserInfoURL'', T_string), (''JWKSURL'', T_string), (''Algorithms'', T_strings)]"

definition oidcProvider_fields :: "(string \<times> gotype) list" where
  "oidcProvider_fields =
    [(''ClientID'', T_string), (''ClientSecret'', T_string), (''RedirectURL'', T_string),
     (''Scopes'', T_strings), (''DisplayName'', T_string), (''AutoDiscovery'', T_string),
     (''Endpoint'', T_struct ''oidcEndpoint''), (''UsernameClaim'', T_string),
     (''NameClaim'', T_string), (''EmailClaim'', T_string)]"

definition ConfigType_fields :: "(string \<times> gotype) list" where
  "ConfigType_fields =
    [(''MySQL'', T_struct ''DbConfig''), (''BoltDb'', T_struct ''DbConfig''),
     (''Postgres'', T_struct ''DbConfig''),
     (''Dialect'', T_DbDriver),
     (''Port'', T_string),
     (''Interface'', T_string),
     (''TmpPath'', T_string),
     (''SshConfigPath'', T_string),
     (''GitClientId'', T_GitClientId),
     (''WebHost'', T_string),
     (''CookieHash'', T_string), (''CookieEncryption'', T_string),
     (''AccessKeyEncryption'', T_string),
     (''EmailAlert'', T_bool), (''EmailSender'', T_string), (''EmailHost'', T_string),
     (''EmailPort'', T_string), (''EmailUsername'', T_string),
     (''EmailPassword'', T_string), (''EmailSecure'', T_bool),
     (''LdapEnable'', T_bool), (''LdapBindDN'', T_string),
     (''LdapBindPassword'', T_string), (''LdapServer'', T_string),
     (''LdapSearchDN'', T_string), (''LdapSearchFilter'', T_string),
     (''LdapMappings'', T_struct ''ldapMappings''), (''LdapNeedTLS'', T_bool),
     (''TelegramAlert'', T_bool), (''TelegramChat'', T_string),
     (''TelegramToken'', T_string), (''SlackAlert'', T_bool), (''SlackUrl'', T_string),
     (''OidcProviders'', T_providers),
     (''MaxParallelTasks'', T_int),
     (''DemoMode'', T_bool), (''PasswordLoginDisable'', T_bool),
     (''NonAdminCanCreateProject'', T_bool)]"

definition struct_fields :: "string \<Rightarrow> (string \<times> gotype) list" where
  "struct_fields n =
    (if n = ''ConfigType'' then ConfigType_fields
     else if n = ''DbConfig'' then DbConfig_fields
     else if n = ''ldapMappings'' then ldapMappings_fields
     else if n = ''oidcProvider'' then oidcProvider_fields
     else if n = ''oidcEndpoint'' then oidcEndpoint_fields
     else [])"

definition int_min :: int where "int_min = - (2 ^ 63)"
definition int_max :: int where "int_max = 2 ^ 63 - 1"

text \<open>
  \<open>conforms v\<close>: the value is one a Go variable of type \<open>type_of v\<close> can hold: a struct
  has exactly its declared fields, each of its declared type; an \<^verbatim>\<open>int\<close> is in range;
  a map has each key once; the providers of the identity map are \<^verbatim>\<open>oidcProvider\<close>
  structs.
\<close>

fun conforms :: "goval \<Rightarrow> bool" where
  "conforms (VInt i) = (int_min \<le> i \<and> i \<le> int_max)"
| "conforms (VOptions m) = distinct (map fst m)"
| "conforms (VProviders m) =
     (distinct (map fst m) \<and> list_all (\<lambda>kv. type_of (snd kv) = T_struct ''oidcProvider'' \<and> conforms (snd kv)) m)"
| "conforms (VStruct n fs) =
     (map (\<lambda>kv. (fst kv, type_of (snd kv))) fs = struct_fields n
      \<and> list_all (\<lambda>kv. conforms (snd kv)) fs)"
| "conforms _ = True"

definition is_ConfigType :: "goval \<Rightarrow> bool" where
  "is_ConfigType c \<longleftrightarrow> type_of c = T_struct ''ConfigType'' \<and> conforms c"

text \<open>The zero value of each type: what a freshly allocated record holds.\<close>

fun zero_fields :: "nat \<Rightarrow> (string \<times> gotype) list \<Rightarrow> (string \<times> goval) list"
and zero_of :: "nat \<Rightarrow> gotype \<Rightarrow> goval" where
  "zero_fields d [] = []"
| "zero_fields d ((n, t) # fs) = (n, zero_of d t) # zero_fields d fs"
| "zero_of d T_string = VString ''''"
| "zero_of d T_int = VInt 0"
| "zero_of d T_bool = VBool False"
| "zero_of d T_DbDriver = VDbDriver ''''"
| "zero_of d T_GitClientId = VGitClientId ''''"
| "zero_of d T_strings = VStrings []"
| "zero_of d T_options = VOptions []"
| "zero_of d T_providers = VProviders []"
| "zero_of 0 (T_struct n) = VStruct n []"
| "zero_of (Suc d) (T_struct n) = VStruct n (zero_fields d (struct_fields n))"

definition zero_ConfigType :: goval where
  "zero_ConfigType = zero_of 2 (T_struct ''ConfigType'')"

section \<open>Library functions the program calls\<close>

subsection \<open>Package strings\<close>

definition HasPrefix :: "string \<Rightarrow> string \<Rightarrow> bool" where
  "HasPrefix s p \<longleftrightarrow> take (length p) s = p"

fun Contains :: "string \<Rightarrow> string \<Rightarrow> bool" where
  "Contains [] sub = (sub = [])"
| "Contains (c # cs) sub = (if HasPrefix (c # cs) sub then True else Contains cs sub)"

text \<open>\<^verbatim>\<open>strings.Split(s, sep)\<close> for a one-byte separator: never the empty list.\<close>

fun Split :: "string \<Rightarrow> char \<Rightarrow> string list" where
  "Split [] sep = [[]]"
| "Split (c # cs) sep =
     (if c = sep then [] # Split cs sep
      else (case Split cs sep of [] \<Rightarrow> [[c]] | w # ws \<Rightarrow> (c # w) # ws))"

fun Join :: "string list \<Rightarrow> string \<Rightarrow> string" where
  "Join [] sep = []"
| "Join [x] sep = x"
| "Join (x # y # ys) sep = x @ sep @ Join (y # ys) sep"

text \<open>
  \<^verbatim>\<open>strings.ToLower\<close> on the ASCII letters. The program only compares the result with
  \<^verbatim>\<open>"true"\<close>, and no character outside ASCII has a lower-case form among those letters.
\<close>

definition lower_byte :: "char \<Rightarrow> char" where
  "lower_byte c =
     (if CHR ''A'' \<le> c \<and> c \<le> CHR ''Z'' then char_of (of_char c + (32::nat)) else c)"

definition ToLower :: "string \<Rightarrow> string" where
  "ToLower s = map lower_byte s"

subsection \<open>Package strconv\<close>

definition digit_char :: "nat \<Rightarrow> char" where
  "digit_char d = char_of (48 + d)"

definition is_digit :: "char \<Rightarrow> bool" where
  "is_digit c \<longleftrightarrow> CHR ''0'' \<le> c \<and> c \<le> CHR ''9''"

definition digit_val :: "char \<Rightarrow> nat" where
  "digit_val c = of_char c - 48"

function Itoa_nat :: "nat \<Rightarrow> string" where
  "Itoa_nat n = (if n < 10 then [digit_char n] else Itoa_nat (n div 10) @ [digit_char (n mod 10)])"
  by pat_completeness auto
termination by (relation "measure id") auto

declare Itoa_nat.simps [simp del]

definition Itoa :: "int \<Rightarrow> string" where
  "Itoa i = (if i < 0 then CHR ''-'' # Itoa_nat (nat (- i)) else Itoa_nat (nat i))"

text \<open>The digits of a base-10 literal, most significant first; \<open>None\<close> at a non-digit.\<close>

fun parse_digits :: "nat \<Rightarrow> string \<Rightarrow> nat option" where
  "parse_digits acc [] = Some acc"
| "parse_digits acc (c # cs) =
     (if is_digit c then parse_digits (10 * acc + digit_val c) cs else None)"

text \<open>
  \<^verbatim>\<open>strconv.Atoi\<close>: an optional sign, then at least one decimal digit, and the value
  within the range of \<^verbatim>\<open>int\<close>; \<open>None\<close> is a returned error.
\<close>

definition Atoi :: "string \<Rightarrow> int option" where
  "Atoi s =
    (let neg = (s \<noteq> [] \<and> hd s = CHR ''-'');
         ds = (if s \<noteq> [] \<and> (hd s = CHR ''-'' \<or> hd s = CHR ''+'') then tl s else s)
     in if ds = [] then None
        else (case parse_digits 0 ds of
                None \<Rightarrow> None
              | Some n \<Rightarrow>
                  (let i = (if neg then - int n else int n)
                   in if int_min \<le> i \<and> i \<le> int_max then Some i else None)))"

subsection \<open>Package fmt: the verb \<^verbatim>\<open>%v\<close>\<close>

text \<open>
  \<^verbatim>\<open>fmt.Sprintf("%v", x)\<close>, also when \<^verbatim>\<open>x\<close> is a \<^verbatim>\<open>reflect.Value\<close> (package fmt prints
  the value it holds): a string as it is (\<^verbatim>\<open>DbDriver\<close> through its \<^verbatim>\<open>String\<close> method),
  an integer in decimal, a struct as its fields in braces, a map with its keys sorted.
\<close>

fun Sprintf_v :: "goval \<Rightarrow> string" where
  "Sprintf_v (VString s) = s"
| "Sprintf_v (VInt i) = Itoa i"
| "Sprintf_v (VBool b) = (if b then ''true'' else ''false'')"
| "Sprintf_v (VDbDriver s) = s"
| "Sprintf_v (VGitClientId s) = s"
| "Sprintf_v (VStrings xs) = ''['' @ Join xs '' '' @ '']''"
| "Sprintf_v (VOptions m) =
     ''map['' @ Join (map (\<lambda>kv. fst kv @ '':'' @ snd kv) (sort_key fst m)) '' '' @ '']''"
| "Sprintf_v (VProviders m) =
     ''map['' @ Join (map (\<lambda>kv. fst kv @ '':'' @ Sprintf_v (snd kv)) (sort_key fst m)) '' ''
       @ '']''"
| "Sprintf_v (VStruct n fs) = ''{'' @ Join (map (\<lambda>kv. Sprintf_v (snd kv)) fs) '' '' @ ''}''"

section \<open>Reading and writing a field by its dotted path\<close>

text \<open>
  A panic of the Go program is a value. \<open>SchemaError\<close> is the panic \<^verbatim>\<open>getConfigValue\<close>
  raises itself (\<^verbatim>\<open>got non-existent config attribute\<close>), \<open>CoercionError\<close> the one of
  \<^verbatim>\<open>castStringToInt\<close>, \<open>ReflectPanic\<close> one raised inside package \<^verbatim>\<open>reflect\<close>.
\<close>

datatype panic = SchemaError string | CoercionError string | ReflectPanic string

definition and_then :: "panic + 'a \<Rightarrow> ('a \<Rightarrow> panic + 'b) \<Rightarrow> panic + 'b" where
  "and_then m f = (case m of Inl e \<Rightarrow> Inl e | Inr x \<Rightarrow> f x)"

text \<open>
  A \<^verbatim>\<open>reflect.Value\<close>: the zero Value, the pointer \<^verbatim>\<open>Config\<close> to the record, or an
  addressable field of the record, given by the field names leading to it and the value
  it holds.
\<close>

datatype rvalue = RZero | RPtr goval | RField "string list" goval

fun Kind :: "rvalue \<Rightarrow> kind" where
  "Kind RZero = KInvalid"
| "Kind (RPtr c) = KPtr"
| "Kind (RField loc v) = kind_of (type_of v)"

text \<open>The names package reflect prints in its panics.\<close>

fun kind_name :: "kind \<Rightarrow> string" where
  "kind_name KInvalid = ''zero''"
| "kind_name KBool = ''bool''"
| "kind_name KInt = ''int''"
| "kind_name KString = ''string''"
| "kind_name KSlice = ''slice''"
| "kind_name KMap = ''map''"
| "kind_name KStruct = ''struct''"
| "kind_name KPtr = ''ptr''"

fun type_name :: "gotype \<Rightarrow> string" where
  "type_name T_string = ''string''"
| "type_name T_int = ''int''"
| "type_name T_bool = ''bool''"
| "type_name T_DbDriver = ''util.DbDriver''"
| "type_name T_GitClientId = ''util.GitClientId''"
| "type_name T_strings = ''[]string''"
| "type_name T_options = ''map[string]string''"
| "type_name T_providers = ''map[string]util.oidcProvider''"
| "type_name (T_struct n) = ''util.'' @ n"

fun IsValid :: "rvalue \<Rightarrow> bool" where
  "IsValid RZero = False"
| "IsValid _ = True"

fun Indirect :: "rvalue \<Rightarrow> rvalue" where
  "Indirect (RPtr c) = RField [] c"
| "Indirect a = a"

text \<open>
  \<^verbatim>\<open>Value.FieldByName\<close> panics on anything but a struct (the zero Value included) and
  returns the zero Value when the struct has no field of that name.
\<close>

fun FieldByName :: "rvalue \<Rightarrow> string \<Rightarrow> panic + rvalue" where
  "FieldByName (RField loc (VStruct n fs)) name =
     (case map_of fs name of
        None \<Rightarrow> Inr RZero
      | Some v \<Rightarrow> Inr (RField (loc @ [name]) v))"
| "FieldByName a name =
     Inl (ReflectPanic
       (''reflect: call of reflect.Value.FieldByName on '' @ kind_name (Kind a) @ '' Value''))"

text \<open>The record with the field at a location replaced.\<close>

fun with_field :: "string \<Rightarrow> goval \<Rightarrow> (string \<times> goval) list \<Rightarrow> (string \<times> goval) list" where
  "with_field n y [] = []"
| "with_field n y (kv # fs) = (if fst kv = n then (n, y) # fs else kv # with_field n y fs)"

primrec store :: "string list \<Rightarrow> goval \<Rightarrow> goval \<Rightarrow> goval" where
  "store [] x c = x"
| "store (n # ns) x c =
     (case c of
        VStruct t fs \<Rightarrow>
          (case map_of fs n of
             None \<Rightarrow> c
           | Some v \<Rightarrow> VStruct t (with_field n (store ns x v) fs))
      | _ \<Rightarrow> c)"

text \<open>The value at a location of the record, if the field names lead to one.\<close>

primrec lookup :: "string list \<Rightarrow> goval \<Rightarrow> goval option" where
  "lookup [] c = Some c"
| "lookup (n # ns) c =
     (case c of
        VStruct t fs \<Rightarrow> (case map_of fs n of None \<Rightarrow> None | Some v \<Rightarrow> lookup ns v)
      | _ \<Rightarrow> None)"

text \<open>
  \<^verbatim>\<open>attribute.Set(x)\<close> on the record \<open>c\<close>: the types must be identical (every scalar
  type of the record is a named type, and no two of its composite types share a kind),
  else package reflect panics.
\<close>

definition not_assignable :: "gotype \<Rightarrow> gotype \<Rightarrow> string" where
  "not_assignable V T =
     ''reflect.Set: value of type '' @ type_name V @ '' is not assignable to type ''
       @ type_name T"

fun Set_value :: "rvalue \<Rightarrow> goval \<Rightarrow> goval \<Rightarrow> panic + goval" where
  "Set_value (RField loc old) x c =
     (if type_of x = type_of old then Inr (store loc x c)
      else Inl (ReflectPanic (not_assignable (type_of x) (type_of old))))"
| "Set_value RZero x c = Inl (ReflectPanic ''reflect: call of reflect.Value.Set on zero Value'')"
| "Set_value (RPtr p) x c =
     Inl (ReflectPanic ''reflect: reflect.Value.Set using unaddressable value'')"

definition castStringToInt :: "string \<Rightarrow> panic + int" where
  "castStringToInt value =
     (case Atoi value of None \<Rightarrow> Inl (CoercionError value) | Some valueInt \<Rightarrow> Inr valueInt)"

definition castStringToBool :: "string \<Rightarrow> bool" where
  "castStringToBool value = (value = ''1'' \<or> ToLower value = ''true'')"

text \<open>The loop of \<^verbatim>\<open>setConfigValue\<close> over the segments of the path.\<close>

fun set_walk :: "rvalue \<Rightarrow> string list \<Rightarrow> panic + rvalue" where
  "set_walk attribute [] = Inr attribute"
| "set_walk attribute (nested # rest) =
     and_then (FieldByName (Indirect attribute) nested) (\<lambda>a. set_walk a rest)"

definition coerce :: "kind \<Rightarrow> goval \<Rightarrow> panic + goval" where
  "coerce k v =
     (if k = KInt then
        (if kind_of (type_of v) \<noteq> KInt
         then and_then (castStringToInt (Sprintf_v v)) (\<lambda>i. Inr (VInt i)) else Inr v)
      else if k = KBool then
        (if kind_of (type_of v) \<noteq> KBool
         then Inr (VBool (castStringToBool (Sprintf_v v))) else Inr v)
      else Inr v)"

definition setConfigValue :: "string \<Rightarrow> goval \<Rightarrow> goval \<Rightarrow> panic + goval" where
  "setConfigValue path v Config =
     and_then (set_walk (RPtr Config) (Split path CHR ''.''))
       (\<lambda>attribute.
          if IsValid attribute
          then and_then (coerce (Kind attribute) v) (\<lambda>v'. Set_value attribute v' Config)
          else Inr Config)"

text \<open>The loop of \<^verbatim>\<open>getConfigValue\<close>; \<open>rest = []\<close> is \<^verbatim>\<open>lastDepth\<close>.\<close>

fun get_walk :: "string \<Rightarrow> rvalue \<Rightarrow> string list \<Rightarrow> panic + rvalue" where
  "get_walk path attribute [] = Inr attribute"
| "get_walk path attribute (nested # rest) =
     and_then (FieldByName (Indirect attribute) nested)
       (\<lambda>a. if (rest \<noteq> [] \<and> Kind a \<noteq> KStruct) \<or> (rest = [] \<and> Kind a = KInvalid)
             then Inl (SchemaError path)
             else get_walk path a rest)"

fun Sprintf_rv :: "rvalue \<Rightarrow> string" where
  "Sprintf_rv RZero = ''<invalid reflect.Value>''"
| "Sprintf_rv (RPtr c) = CHR ''&'' # Sprintf_v c"
| "Sprintf_rv (RField loc v) = Sprintf_v v"

definition getConfigValue :: "string \<Rightarrow> goval \<Rightarrow> panic + string" where
  "getConfigValue path Config =
     and_then (get_walk path (RPtr Config) (Split path CHR ''.''))
       (\<lambda>attribute. Inr (Sprintf_rv attribute))"

text \<open>Typed access to a field, as in \<^verbatim>\<open>Config.Port\<close>, \<^verbatim>\<open>conf.MySQL\<close> or \<^verbatim>\<open>d.Options\<close>.\<close>

definition str_field :: "string \<Rightarrow> goval \<Rightarrow> string" where
  "str_field n c =
     (case lookup [n] c of
        Some (VString s) \<Rightarrow> s
      | Some (VDbDriver s) \<Rightarrow> s
      | Some (VGitClientId s) \<Rightarrow> s
      | _ \<Rightarrow> [])"

definition sub_record :: "string \<Rightarrow> goval \<Rightarrow> goval" where
  "sub_record n c = (case lookup [n] c of Some v \<Rightarrow> v | None \<Rightarrow> VStruct [] [])"

definition Options :: "goval \<Rightarrow> (string \<times> string) list" where
  "Options d = (case lookup [''Options''] d of Some (VOptions m) \<Rightarrow> m | _ \<Rightarrow> [])"

definition DbDriverMySQL :: string where "DbDriverMySQL = ''mysql''"
definition DbDriverBolt :: string where "DbDriverBolt = ''bolt''"
definition DbDriverPostgres :: string where "DbDriverPostgres = ''postgres''"

section \<open>Ranging over a map\<close>

text \<open>
  A Go map with string keys is the list of its entries, each key once. The order in which
  a \<^verbatim>\<open>range\<close> statement yields the entries is chosen by the runtime: every loop over a
  map takes that choice as a function \<open>iter\<close> from the entries to a sequence of them,
  and \<open>range_order iter\<close> says that the sequence has every entry exactly once.
\<close>

type_synonym gomap = "(string \<times> string) list"

definition range_order :: "(gomap \<Rightarrow> gomap) \<Rightarrow> bool" where
  "range_order iter \<longleftrightarrow> (\<forall>m. mset (iter m) = mset m)"

text \<open>The assignment \<^verbatim>\<open>m[k] = v\<close>.\<close>

fun map_assign :: "string \<Rightarrow> string \<Rightarrow> gomap \<Rightarrow> gomap" where
  "map_assign k v [] = [(k, v)]"
| "map_assign k v (e # m) = (if fst e = k then (k, v) # m else e # map_assign k v m)"

section \<open>The tables of the program\<close>

definition configDefaults :: "(string \<times> goval) list" where
  "configDefaults =
    [(''Port'', VString '':3000''),
     (''TmpPath'', VString ''/tmp/semaphore''),
     (''GitClientId'', VGitClientId ''go_git'')]"

definition ConfigEnvironmentalVars :: gomap where
  "ConfigEnvironmentalVars =
    [(''Dialect'', ''SEMAPHORE_DB_DIALECT''),
     (''MySQL.Hostname'', ''SEMAPHORE_DB_HOST''),
     (''MySQL.Username'', ''SEMAPHORE_DB_USER''),
     (''MySQL.Password'', ''SEMAPHORE_DB_PASS''),
     (''MySQL.DbName'', ''SEMAPHORE_DB''),
     (''Postgres.Hostname'', ''SEMAPHORE_DB_HOST''),
     (''Postgres.Username'', ''SEMAPHORE_DB_USER''),
     (''Postgres.Password'', ''SEMAPHORE_DB_PASS''),
     (''Postgres.DbName'', ''SEMAPHORE_DB''),
     (''BoltDb.Hostname'', ''SEMAPHORE_DB_HOST''),
     (''Port'', ''SEMAPHORE_PORT''),
     (''Interface'', ''SEMAPHORE_INTERFACE''),
     (''TmpPath'', ''SEMAPHORE_TMP_PATH''),
     (''SshConfigPath'', ''SEMAPHORE_TMP_PATH''),
     (''GitClientId'', ''SEMAPHORE_GIT_CLIENT''),
     (''WebHost'', ''SEMAPHORE_WEB_ROOT''),
     (''CookieHash'', ''SEMAPHORE_COOKIE_HASH''),
     (''CookieEncryption'', ''SEMAPHORE_COOKIE_ENCRYPTION''),
     (''AccessKeyEncryption'', ''SEMAPHORE_ACCESS_KEY_ENCRYPTION''),
     (''EmailAlert'', ''SEMAPHORE_EMAIL_ALERT''),
     (''EmailSender'', ''SEMAPHORE_EMAIL_SENDER''),
     (''EmailHost'', ''SEMAPHORE_EMAIL_HOST''),
     (''EmailPort'', ''SEMAPHORE_EMAIL_PORT''),
     (''EmailUsername'', ''SEMAPHORE_EMAIL_USER''),
     (''EmailPassword'', ''SEMAPHORE_EMAIL_PASSWORD''),
     (''EmailSecure'', ''SEMAPHORE_EMAIL_SECURE''),
     (''LdapEnable'', ''SEMAPHORE_LDAP_ACTIVATED''),
     (''LdapBindDN'', ''SEMAPHORE_LDAP_DN_BIND''),
     (''LdapBindPassword'', ''SEMAPHORE_LDAP_PASSWORD''),
     (''LdapServer'', ''SEMAPHORE_LDAP_HOST''),
     (''LdapSearchDN'', ''SEMAPHORE_LDAP_DN_SEARCH''),
     (''LdapSearchFilter'', ''SEMAPHORE_LDAP_SEARCH_FILTER''),
     (''LdapMappings.DN'', ''SEMAPHORE_LDAP_MAPPING_DN''),
     (''LdapMappings.UID'', ''SEMAPHORE_LDAP_MAPPING_USERNAME''),
     (''LdapMappings.CN'', ''SEMAPHORE_LDAP_MAPPING_FULLNAME''),
     (''LdapMappings.Mail'', ''SEMAPHORE_LDAP_MAPPING_EMAIL''),
     (''LdapNeedTLS'', ''SEMAPHORE_LDAP_NEEDTLS''),
     (''TelegramAlert'', ''SEMAPHORE_TELEGRAM_ALERT''),
     (''TelegramChat'', ''SEMAPHORE_TELEGRAM_CHAT''),
     (''TelegramToken'', ''SEMAPHORE_TELEGRAM_TOKEN''),
     (''SlackAlert'', ''SEMAPHORE_SLACK_ALERT''),
     (''SlackUrl'', ''SEMAPHORE_SLACK_URL''),
     (''MaxParallelTasks'', ''SEMAPHORE_MAX_PARALLEL_TASKS'')]"

text \<open>The backslash of the base64 patterns is written by its code, 0x5C.\<close>

definition base64_pattern :: string where
  "base64_pattern = ''^[-A-Za-z0-9+='' @ [CHR 0x5C] @ ''/]{40,}$''"

definition configValidationRegex :: gomap where
  "configValidationRegex =
    [(''Dialect'', ''^mysql|bolt|postgres$''),
     (''Port'', ''^:([0-9]{1,5})$''),
     (''GitClientId'', ''^go_git|cmd_git$''),
     (''CookieHash'', base64_pattern),
     (''CookieEncryption'', base64_pattern),
     (''AccessKeyEncryption'', base64_pattern),
     (''EmailPort'', ''^(|[0-9]{1,5})$''),
     (''MaxParallelTasks'', ''^[0-9]{1,10}$'')]"

text \<open>
  Reading a rendered value back, as the round trip of a scalar field is stated: integer
  parse for an integer, the rule of \<^verbatim>\<open>castStringToBool\<close> for a boolean, the string
  itself for a string.
\<close>

definition coerce_back :: "gotype \<Rightarrow> string \<Rightarrow> panic + goval" where
  "coerce_back t s =
     (if t = T_int then and_then (castStringToInt s) (\<lambda>i. Inr (VInt i))
      else if t = T_bool then Inr (VBool (castStringToBool s))
      else if t = T_string then Inr (VString s)
      else Inl (CoercionError s))"


section \<open>Regular expressions of the validation table\<close>

text \<open>
  The syntax tree of a pattern of package \<^verbatim>\<open>regexp\<close>, as far as the table needs it:
  the anchors \<^verbatim>\<open>^\<close> and \<^verbatim>\<open>$\<close>, a literal, a character class given by its ranges,
  concatenation, alternation, and repetition \<^verbatim>\<open>{m,n}\<close> or \<^verbatim>\<open>{m,}\<close>.
\<close>

datatype regex =
    Bol | Eol
  | Lit string
  | Class "(char \<times> char) list"
  | Seq regex regex
  | Alt regex regex
  | Rep regex nat "nat option"

text \<open>
  A position in the subject is the number of bytes before it and the bytes after it.
  \<open>rmatch r pos k\<close>: the expression matches from \<open>pos\<close> up to a position that the
  continuation \<open>k\<close> accepts.
\<close>

type_synonym pos = "nat \<times> string"

fun in_class :: "(char \<times> char) list \<Rightarrow> char \<Rightarrow> bool" where
  "in_class [] c = False"
| "in_class (r # rs) c = (if fst r \<le> c \<and> c \<le> snd r then True else in_class rs c)"

text \<open>
  At least \<open>lo\<close> and at most \<open>lo + extra\<close> repetitions of the matcher \<open>f\<close>.
\<close>

fun repeat :: "(pos \<Rightarrow> (pos \<Rightarrow> bool) \<Rightarrow> bool) \<Rightarrow> nat \<Rightarrow> nat \<Rightarrow> pos \<Rightarrow> (pos \<Rightarrow> bool) \<Rightarrow> bool" where
  "repeat f 0 0 p k = k p"
| "repeat f 0 (Suc extra) p k = (if k p then True else f p (\<lambda>q. repeat f 0 extra q k))"
| "repeat f (Suc lo) extra p k = f p (\<lambda>q. repeat f lo extra q k)"

text \<open>
  An unbounded repetition \<^verbatim>\<open>{m,}\<close> needs no more than \<open>m\<close> repetitions and one more for
  every byte left: further ones would match the empty string.
\<close>

primrec rmatch :: "regex \<Rightarrow> pos \<Rightarrow> (pos \<Rightarrow> bool) \<Rightarrow> bool" where
  "rmatch Bol = (\<lambda>p k. if fst p = 0 then k p else False)"
| "rmatch Eol = (\<lambda>p k. if snd p = [] then k p else False)"
| "rmatch (Lit w) =
     (\<lambda>p k. if take (length w) (snd p) = w
            then k (fst p + length w, drop (length w) (snd p)) else False)"
| "rmatch (Class rs) =
     (\<lambda>p k. case snd p of
              [] \<Rightarrow> False
            | c # cs \<Rightarrow> if in_class rs c then k (Suc (fst p), cs) else False)"
| "rmatch (Seq a b) = (\<lambda>p k. rmatch a p (\<lambda>q. rmatch b q k))"
| "rmatch (Alt a b) = (\<lambda>p k. if rmatch a p k then True else rmatch b p k)"
| "rmatch (Rep a lo hi) =
     (\<lambda>p k. repeat (rmatch a) lo
               (case hi of None \<Rightarrow> length (snd p) | Some n \<Rightarrow> n - lo) p k)"

text \<open>
  \<^verbatim>\<open>Regexp.MatchString\<close> reports whether the subject contains a match, starting anywhere.
  \<open>whole_match\<close> is the stricter question whether the expression matches the subject from
  its first to its last byte.
\<close>

fun search :: "regex \<Rightarrow> pos \<Rightarrow> bool" where
  "search r (i, []) = rmatch r (i, []) (\<lambda>q. True)"
| "search r (i, c # cs) =
     (if rmatch r (i, c # cs) (\<lambda>q. True) then True else search r (Suc i, cs))"

definition whole_match :: "regex \<Rightarrow> string \<Rightarrow> bool" where
  "whole_match r s = rmatch r (0, s) (\<lambda>q. snd q = [])"

definition digit_class :: regex where
  "digit_class = Class [(CHR ''0'', CHR ''9'')]"

definition base64_class :: regex where
  "base64_class =
     Class [(CHR ''-'', CHR ''-''), (CHR ''A'', CHR ''Z''), (CHR ''a'', CHR ''z''),
            (CHR ''0'', CHR ''9''), (CHR ''+'', CHR ''+''), (CHR ''='', CHR ''=''),
            (CHR ''/'', CHR ''/'')]"

text \<open>
  \<^verbatim>\<open>regexp.Compile\<close> on the patterns of the table, parsed by hand: alternation binds
  weaker than concatenation, so in \<^verbatim>\<open>^mysql|bolt|postgres$\<close> the anchor \<^verbatim>\<open>^\<close> belongs to
  the first alternative only and \<^verbatim>\<open>$\<close> to the last only. No other pattern reaches the
  program; \<open>None\<close> stands for them.
\<close>

definition dialect_regex :: regex where
  "dialect_regex =
     Alt (Seq Bol (Lit ''mysql'')) (Alt (Lit ''bolt'') (Seq (Lit ''postgres'') Eol))"

definition git_client_regex :: regex where
  "git_client_regex = Alt (Seq Bol (Lit ''go_git'')) (Seq (Lit ''cmd_git'') Eol)"

definition Compile :: "string \<Rightarrow> regex option" where
  "Compile pattern =
    (if pattern = ''^mysql|bolt|postgres$'' then Some dialect_regex
     else if pattern = ''^:([0-9]{1,5})$'' then
       Some (Seq Bol (Seq (Lit '':'') (Seq (Rep digit_class 1 (Some 5)) Eol)))
     else if pattern = ''^go_git|cmd_git$'' then Some git_client_regex
     else if pattern = base64_pattern then
       Some (Seq Bol (Seq (Rep base64_class 40 None) Eol))
     else if pattern = ''^(|[0-9]{1,5})$'' then
       Some (Seq Bol (Seq (Alt (Lit []) (Rep digit_class 1 (Some 5))) Eol))
     else if pattern = ''^[0-9]{1,10}$'' then
       Some (Seq Bol (Seq (Rep digit_class 1 (Some 10)) Eol))
     else None)"

text \<open>
  \<^verbatim>\<open>regexp.MatchString(pattern, s)\<close>; a pattern that does not compile gives \<^verbatim>\<open>false\<close>
  and an error, which \<^verbatim>\<open>validateConfig\<close> drops.
\<close>

definition MatchString :: "string \<Rightarrow> string \<Rightarrow> bool" where
  "MatchString pattern s =
     (case Compile pattern of None \<Rightarrow> False | Some r \<Rightarrow> search r (0, s))"

section \<open>Validation\<close>

definition quote :: string where
  "quote = [CHR 0x27]"

definition Port :: "goval \<Rightarrow> string" where
  "Port Config = str_field ''Port'' Config"

text \<open>The first statement of \<^verbatim>\<open>validateConfig\<close>: the port gets its colon.\<close>

definition normalizePort :: "goval \<Rightarrow> goval" where
  "normalizePort Config =
     (if \<not> HasPrefix (Port Config) '':''
      then store [''Port''] (VString ('':'' @ Port Config)) Config
      else Config)"

definition invalid_message :: "string \<Rightarrow> string \<Rightarrow> string \<Rightarrow> string" where
  "invalid_message attribute v validateRegex =
     ''value of setting '' @ quote @ attribute @ quote @ '' is not valid: '' @ quote @ v @ quote
       @ '' (Must match regex: '' @ quote @ validateRegex @ quote @ '')''"

definition redacted_message :: "string \<Rightarrow> string \<Rightarrow> string" where
  "redacted_message attribute validateRegex =
     ''value of setting '' @ quote @ attribute @ quote @ '' is not valid! (Must match regex: ''
       @ quote @ validateRegex @ quote @ '')''"

text \<open>
  The body of the loop of \<^verbatim>\<open>validateConfig\<close> for one entry of the table. The calls of
  \<^verbatim>\<open>errorFunc\<close> are the list of their arguments, in the order of the calls; the matcher
  is a parameter, \<^verbatim>\<open>regexp.MatchString\<close> in the program.
\<close>

definition validate_entry ::
  "(string \<Rightarrow> string \<Rightarrow> bool) \<Rightarrow> goval \<Rightarrow> string \<times> string \<Rightarrow> string list \<Rightarrow> panic + string list" where
  "validate_entry matcher Config entry reported =
     (let attribute = fst entry; validateRegex = snd entry in
      and_then (getConfigValue attribute Config)
        (\<lambda>v. if \<not> matcher validateRegex v then
                (if \<not> Contains attribute ''assword'' \<and> \<not> Contains attribute ''ecret''
                 then Inr (reported @ [invalid_message attribute v validateRegex])
                 else Inr (reported @ [redacted_message attribute validateRegex]))
              else Inr reported))"

fun validate_loop ::
  "(string \<Rightarrow> string \<Rightarrow> bool) \<Rightarrow> goval \<Rightarrow> gomap \<Rightarrow> string list \<Rightarrow> panic + string list" where
  "validate_loop matcher Config [] reported = Inr reported"
| "validate_loop matcher Config (entry # rest) reported =
     and_then (validate_entry matcher Config entry reported)
       (\<lambda>reported'. validate_loop matcher Config rest reported')"

text \<open>
  \<^verbatim>\<open>validateConfig\<close> over a table: the record after it and the messages given to
  \<^verbatim>\<open>errorFunc\<close>. The program runs it on \<open>configValidationRegex\<close> with \<open>MatchString\<close>.
\<close>

definition validate_table ::
  "(string \<Rightarrow> string \<Rightarrow> bool) \<Rightarrow> (gomap \<Rightarrow> gomap) \<Rightarrow> gomap \<Rightarrow> goval \<Rightarrow> panic + goval \<times> string list" where
  "validate_table matcher iter table Config =
     (let Config' = normalizePort Config in
      and_then (validate_loop matcher Config' (iter table) [])
        (\<lambda>reported. Inr (Config', reported)))"

definition validateConfig :: "(gomap \<Rightarrow> gomap) \<Rightarrow> goval \<Rightarrow> panic + goval \<times> string list" where
  "validateConfig iter Config = validate_table MatchString iter configValidationRegex Config"

section \<open>The environment stage\<close>

text \<open>The environment of the process: \<^verbatim>\<open>os.LookupEnv\<close> is the map itself.\<close>

type_synonym environ = "string \<Rightarrow> string option"

definition Getenv :: "environ \<Rightarrow> string \<Rightarrow> string" where
  "Getenv env name = (case env name of None \<Rightarrow> [] | Some v \<Rightarrow> v)"

definition Dialect :: "goval \<Rightarrow> string" where
  "Dialect c = str_field ''Dialect'' c"

definition skipped :: "string \<Rightarrow> goval \<Rightarrow> bool" where
  "skipped attribute Config \<longleftrightarrow>
     (if Contains attribute ''MySQL'' \<and> Dialect Config \<noteq> DbDriverMySQL then True
      else if Contains attribute ''Postgres'' \<and> Dialect Config \<noteq> DbDriverPostgres then True
      else if Contains attribute ''BoldDb'' \<and> Dialect Config \<noteq> DbDriverBolt then True
      else False)"

definition env_entry :: "environ \<Rightarrow> string \<times> string \<Rightarrow> goval \<Rightarrow> panic + goval" where
  "env_entry env entry Config =
     (let attribute = fst entry; envVar = snd entry in
      if skipped attribute Config then Inr Config
      else (case env envVar of
              None \<Rightarrow> Inr Config
            | Some envValue \<Rightarrow>
                if length envValue > 0 then setConfigValue attribute (VString envValue) Config
                else Inr Config))"

fun env_loop :: "environ \<Rightarrow> gomap \<Rightarrow> goval \<Rightarrow> panic + goval" where
  "env_loop env [] Config = Inr Config"
| "env_loop env (entry # rest) Config =
     and_then (env_entry env entry Config) (\<lambda>Config'. env_loop env rest Config')"

definition loadConfigEnvironment :: "(gomap \<Rightarrow> gomap) \<Rightarrow> environ \<Rightarrow> goval \<Rightarrow> panic + goval" where
  "loadConfigEnvironment iter env Config = env_loop env (iter ConfigEnvironmentalVars) Config"

section \<open>Dialect and connection string\<close>

text \<open>
  An \<^verbatim>\<open>error\<close> of the program that is returned, not raised; both errors of this part
  are what the specification calls a dialect error. A Go function with results
  \<^verbatim>\<open>(x, err)\<close> returns the pair, \<open>None\<close> for \<^verbatim>\<open>nil\<close>.
\<close>

datatype error = DialectError string

definition GetDbName :: "environ \<Rightarrow> goval \<Rightarrow> string" where
  "GetDbName env d =
     (let dbName = Getenv env ''SEMAPHORE_DB_NAME''
      in if dbName \<noteq> [] then dbName else str_field ''DbName'' d)"

definition GetUsername :: "environ \<Rightarrow> goval \<Rightarrow> string" where
  "GetUsername env d =
     (let username = Getenv env ''SEMAPHORE_DB_USER''
      in if username \<noteq> [] then username else str_field ''Username'' d)"

definition GetPassword :: "environ \<Rightarrow> goval \<Rightarrow> string" where
  "GetPassword env d =
     (let password = Getenv env ''SEMAPHORE_DB_PASS''
      in if password \<noteq> [] then password else str_field ''Password'' d)"

definition GetHostname :: "environ \<Rightarrow> goval \<Rightarrow> string" where
  "GetHostname env d =
     (let hostname = Getenv env ''SEMAPHORE_DB_HOST''
      in if hostname \<noteq> [] then hostname else str_field ''Hostname'' d)"

definition IsPresent :: "environ \<Rightarrow> goval \<Rightarrow> bool" where
  "IsPresent env d \<longleftrightarrow> GetHostname env d \<noteq> []"

definition GetDialect :: "environ \<Rightarrow> goval \<Rightarrow> string \<times> error option" where
  "GetDialect env conf =
     (if Dialect conf = [] then
        (if IsPresent env (sub_record ''MySQL'' conf) then (DbDriverMySQL, None)
         else if IsPresent env (sub_record ''BoltDb'' conf) then (DbDriverBolt, None)
         else if IsPresent env (sub_record ''Postgres'' conf) then (DbDriverPostgres, None)
         else ([], Some (DialectError ''database configuration not found'')))
      else (Dialect conf, None))"

definition zero_DbConfig :: goval where
  "zero_DbConfig = zero_of 1 (T_struct ''DbConfig'')"

definition GetDBConfig :: "environ \<Rightarrow> goval \<Rightarrow> goval \<times> error option" where
  "GetDBConfig env conf =
     (let (dialect, err) = GetDialect env conf in
      if err \<noteq> None then (zero_DbConfig, err)
      else
        (let (dbConfig, err') =
               (if dialect = DbDriverBolt then (sub_record ''BoltDb'' conf, None)
                else if dialect = DbDriverPostgres then (sub_record ''Postgres'' conf, None)
                else if dialect = DbDriverMySQL then (sub_record ''MySQL'' conf, None)
                else (zero_DbConfig, Some (DialectError ''database configuration not found'')))
         in (store [''Dialect''] (VDbDriver dialect) dbConfig, err')))"

text \<open>
  \<^verbatim>\<open>mapToQueryString\<close>: the loop over the entries in the order the runtime yields them,
  with the string built so far.
\<close>

fun query_loop :: "gomap \<Rightarrow> string \<Rightarrow> string" where
  "query_loop [] str = str"
| "query_loop (e # rest) str =
     query_loop rest ((if str \<noteq> [] then str @ ''&'' else str) @ fst e @ ''='' @ snd e)"

definition mapToQueryString :: "(gomap \<Rightarrow> gomap) \<Rightarrow> gomap \<Rightarrow> string" where
  "mapToQueryString iter m =
     (let str = query_loop (iter m) [] in if str \<noteq> [] then ''?'' @ str else str)"

text \<open>
  \<^verbatim>\<open>url.QueryEscape\<close> of package \<^verbatim>\<open>net/url\<close>, that is \<^verbatim>\<open>escape\<close> in the mode
  \<^verbatim>\<open>encodeQueryComponent\<close>: \<^verbatim>\<open>shouldEscape\<close> spares letters, digits and \<^verbatim>\<open>-_.~\<close>; the loop
  appends \<^verbatim>\<open>+\<close> for a space, \<^verbatim>\<open>%\<close> and two upper-case hex digits for any other byte to
  escape, and the byte itself otherwise.
\<close>

definition is_alnum :: "char \<Rightarrow> bool" where
  "is_alnum c \<longleftrightarrow>
     (CHR ''a'' \<le> c \<and> c \<le> CHR ''z'') \<or> (CHR ''A'' \<le> c \<and> c \<le> CHR ''Z'')
     \<or> (CHR ''0'' \<le> c \<and> c \<le> CHR ''9'')"

definition shouldEscape :: "char \<Rightarrow> bool" where
  "shouldEscape c \<longleftrightarrow> \<not> (is_alnum c \<or> c \<in> set ''-_.~'')"

definition upperhex :: string where
  "upperhex = ''0123456789ABCDEF''"

definition percent :: "char \<Rightarrow> string" where
  "percent c =
     [CHR ''%'', upperhex ! (of_char c div 16), upperhex ! (of_char c mod 16)]"

fun escape_loop :: "string \<Rightarrow> string \<Rightarrow> string" where
  "escape_loop [] t = t"
| "escape_loop (c # s) t =
     (if c = CHR '' '' then escape_loop s (t @ ''+'')
      else if shouldEscape c then escape_loop s (t @ percent c)
      else escape_loop s (t @ [c]))"

definition QueryEscape :: "string \<Rightarrow> string" where
  "QueryEscape s = escape_loop s []"

text \<open>The loop \<^verbatim>\<open>for v, k := range d.Options { options[v] = k }\<close>.\<close>

fun merge_options :: "gomap \<Rightarrow> gomap \<Rightarrow> gomap" where
  "merge_options [] options = options"
| "merge_options (e # rest) options = merge_options rest (map_assign (fst e) (snd e) options)"

definition builtin_options :: gomap where
  "builtin_options = [(''parseTime'', ''true''), (''interpolateParams'', ''true'')]"

definition GetConnectionString ::
  "(gomap \<Rightarrow> gomap) \<Rightarrow> environ \<Rightarrow> goval \<Rightarrow> bool \<Rightarrow> string \<times> error option" where
  "GetConnectionString iter env d includeDbName =
     (let dbName = GetDbName env d;
          dbUser = GetUsername env d;
          dbPass = GetPassword env d;
          dbHost = GetHostname env d
      in if Dialect d = DbDriverBolt then (dbHost, None)
         else if Dialect d = DbDriverMySQL then
           (let connectionString =
                  (if includeDbName
                   then dbUser @ '':'' @ dbPass @ ''@tcp('' @ dbHost @ '')/'' @ dbName
                   else dbUser @ '':'' @ dbPass @ ''@tcp('' @ dbHost @ '')/'');
                options = merge_options (iter (Options d)) builtin_options
            in (connectionString @ mapToQueryString iter options, None))
         else if Dialect d = DbDriverPostgres then
           (let connectionString =
                  (if includeDbName
                   then ''postgres://'' @ dbUser @ '':'' @ QueryEscape dbPass @ ''@'' @ dbHost
                          @ ''/'' @ dbName
                   else ''postgres://'' @ dbUser @ '':'' @ QueryEscape dbPass @ ''@'' @ dbHost)
            in (connectionString @ mapToQueryString iter (Options d), None))
         else ([], Some (DialectError (''unsupported database driver: '' @ Dialect d))))"

section \<open>Notions the properties are stated with\<close>

text \<open>
  The rendered value of an attribute of the record, the empty string where the path does
  not resolve.
\<close>

definition value_at :: "string \<Rightarrow> goval \<Rightarrow> string" where
  "value_at path c =
     (case lookup (Split path CHR ''.'') c of None \<Rightarrow> [] | Some v \<Rightarrow> Sprintf_v v)"

definition secret_name :: "string \<Rightarrow> bool" where
  "secret_name attribute \<longleftrightarrow> Contains attribute ''assword'' \<or> Contains attribute ''ecret''"

text \<open>The entries of a table whose value the matcher rejects, in the order given.\<close>

definition failing :: "(string \<Rightarrow> string \<Rightarrow> bool) \<Rightarrow> goval \<Rightarrow> gomap \<Rightarrow> gomap" where
  "failing matcher c table = filter (\<lambda>e. \<not> matcher (snd e) (value_at (fst e) c)) table"

text \<open>The message a failing entry is to be reported with.\<close>

definition message_for :: "goval \<Rightarrow> string \<times> string \<Rightarrow> string" where
  "message_for c e =
     (if secret_name (fst e) then redacted_message (fst e) (snd e)
      else invalid_message (fst e) (value_at (fst e) c) (snd e))"

text \<open>
  What a value given to \<^verbatim>\<open>set\<close> is stored as in a leaf of type \<^verbatim>\<open>int\<close>, \<^verbatim>\<open>bool\<close> or
  \<^verbatim>\<open>string\<close>, in the words of the specification: an integer or boolean leaf takes a
  value of its own type as it is and any other value through its string form (integer
  parse; true iff the string is \<^verbatim>\<open>1\<close> or, in any case of letters, \<^verbatim>\<open>true\<close>); a string
  leaf takes a string. \<open>None\<close>: the value is refused.
\<close>

definition stored_as :: "gotype \<Rightarrow> goval \<Rightarrow> goval option" where
  "stored_as t v =
     (if t = T_int then
        (case v of VInt i \<Rightarrow> Some (VInt i) | _ \<Rightarrow> map_option VInt (Atoi (Sprintf_v v)))
      else if t = T_bool then
        (case v of
           VBool b \<Rightarrow> Some (VBool b)
         | _ \<Rightarrow> Some (VBool (Sprintf_v v = ''1'' \<or> map lower_byte (Sprintf_v v) = ''true'')))
      else if t = T_string then
        (case v of VString s \<Rightarrow> Some (VString s) | _ \<Rightarrow> None)
      else None)"

text \<open>
  The effective host name of a storage sub-record, and the first dialect, in the order
  MySQL, BoltDb, Postgres, whose sub-record has one, in the words of the specification.
\<close>

definition effective_hostname :: "environ \<Rightarrow> goval \<Rightarrow> string" where
  "effective_hostname env d =
     (case env ''SEMAPHORE_DB_HOST'' of
        None \<Rightarrow> str_field ''Hostname'' d
      | Some h \<Rightarrow> if h \<noteq> [] then h else str_field ''Hostname'' d)"

definition first_present :: "environ \<Rightarrow> goval \<Rightarrow> string option" where
  "first_present env conf =
     map_option fst
       (find (\<lambda>p. effective_hostname env (sub_record (snd p) conf) \<noteq> [])
          [(''mysql'', ''MySQL''), (''bolt'', ''BoltDb''), (''postgres'', ''Postgres'')])"

text \<open>The form a byte of the password takes in the escaped password.\<close>

definition escaped_form :: "char \<Rightarrow> string" where
  "escaped_form c = (if c = CHR '' '' then ''+'' else percent c)"

text \<open>The text of one option in a query string.\<close>

definition option_text :: "string \<times> string \<Rightarrow> string" where
  "option_text e = fst e @ ''='' @ snd e"

section \<open>Example records\<close>

text \<open>
  A record that passes validation: the zero record with a dialect, a port, a Git client
  and three base64 keys of 44 characters.
\<close>

definition key44 :: string where
  "key44 = ''MDEyMzQ1Njc4OWFiY2RlZjAxMjM0NTY3ODlhYmNkZWY=''"

definition cfg_valid :: goval where
  "cfg_valid =
     store [''AccessKeyEncryption''] (VString key44)
      (store [''CookieEncryption''] (VString key44)
        (store [''CookieHash''] (VString key44)
          (store [''GitClientId''] (VGitClientId ''go_git'')
            (store [''Port''] (VString '':3000'')
              (store [''Dialect''] (VDbDriver ''mysql'') zero_ConfigType)))))"

definition cfg_mysqlx :: goval where
  "cfg_mysqlx = store [''Dialect''] (VDbDriver ''mysqlx'') cfg_valid"

definition cfg_short_hash :: goval where
  "cfg_short_hash = store [''CookieHash''] (VString ''short'') cfg_valid"

definition cfg_tasks :: goval where
  "cfg_tasks = store [''MaxParallelTasks''] (VInt 7) zero_ConfigType"

definition cfg_port :: goval where
  "cfg_port = store [''Port''] (VString ''3000'') zero_ConfigType"

definition cfg_bolt_host :: goval where
  "cfg_bolt_host = store [''BoltDb'', ''Hostname''] (VString ''/var/lib/semaphore.db'') zero_ConfigType"

definition db_postgres :: goval where
  "db_postgres =
     store [''DbName''] (VString ''semaphore'')
      (store [''Password''] (VString ''p@ss'')
        (store [''Username''] (VString ''alice'')
          (store [''Hostname''] (VString ''db1'')
            (store [''Dialect''] (VDbDriver ''postgres'') zero_DbConfig))))"

definition db_mysql :: goval where
  "db_mysql = store [''Dialect''] (VDbDriver ''mysql'') db_postgres"

definition db_mysql_options :: goval where
  "db_mysql_options =
     store [''Options''] (VOptions [(''parseTime'', ''false''), (''charset'', ''utf8'')]) db_mysql"

definition env_host :: environ where
  "env_host = [''SEMAPHORE_DB_HOST'' \<mapsto> ''db1'']"

(*PROPS*)

section \<open>Properties\<close>

lemma and_then_Inr [simp]: "and_then (Inr x) f = f x"
  by (simp add: and_then_def)

lemma and_then_Inl [simp]: "and_then (Inl e) f = Inl e"
  by (simp add: and_then_def)

lemma Split_not_Nil [simp]: "Split s sep \<noteq> []"
  by (induction s) (auto split: list.splits)

lemma is_struct_cases: "kind_of (type_of v) = KStruct \<Longrightarrow> \<exists>t fs. v = VStruct t fs"
  by (cases v) auto

lemma set_walk_Ptr: "segs \<noteq> [] \<Longrightarrow> set_walk (RPtr c) segs = set_walk (RField [] c) segs"
  by (cases segs) auto

lemma get_walk_Ptr: "segs \<noteq> [] \<Longrightarrow> get_walk p (RPtr c) segs = get_walk p (RField [] c) segs"
  by (cases segs) auto

lemma set_walk_resolves:
  "lookup segs v0 = Some v \<Longrightarrow> set_walk (RField loc v0) segs = Inr (RField (loc @ segs) v)"
proof (induction segs arbitrary: loc v0)
  case Nil
  then show ?case by simp
next
  case (Cons n ns)
  then obtain t fs w where v0: "v0 = VStruct t fs" and w: "map_of fs n = Some w"
    and rest: "lookup ns w = Some v"
    by (cases v0) (auto split: option.splits)
  from Cons.IH [OF rest, of "loc @ [n]"] show ?case
    by (simp add: v0 w)
qed

lemma set_walk_missing_last:
  "lookup ns v0 = Some (VStruct t fs) \<Longrightarrow> map_of fs n = None
    \<Longrightarrow> set_walk (RField loc v0) (ns @ [n]) = Inr RZero"
proof (induction ns arbitrary: loc v0)
  case Nil
  then show ?case by simp
next
  case (Cons m ms)
  then obtain t' fs' w where v0: "v0 = VStruct t' fs'" and w: "map_of fs' m = Some w"
    and rest: "lookup ms w = Some (VStruct t fs)"
    by (cases v0) (auto split: option.splits)
  from Cons.IH [OF rest Cons.prems(2), of "loc @ [m]"] show ?case
    by (simp add: v0 w)
qed

lemma get_walk_struct:
  "kind_of (type_of v0) = KStruct \<Longrightarrow> segs \<noteq> [] \<Longrightarrow>
   get_walk p (RField loc v0) segs =
     (case lookup segs v0 of None \<Rightarrow> Inl (SchemaError p) | Some v \<Rightarrow> Inr (RField (loc @ segs) v))"
proof (induction segs arbitrary: loc v0)
  case Nil
  then show ?case by simp
next
  case (Cons n ns)
  from Cons.prems(1) obtain t fs where v0: "v0 = VStruct t fs"
    using is_struct_cases by blast
  show ?case
  proof (cases "map_of fs n")
    case None
    then show ?thesis by (simp add: v0)
  next
    case (Some w)
    show ?thesis
    proof (cases "ns = []")
      case True
      then show ?thesis by (cases w) (simp_all add: v0 Some)
    next
      case False
      show ?thesis
      proof (cases "kind_of (type_of w) = KStruct")
        case True
        from Cons.IH [OF True False, of "loc @ [n]"] show ?thesis
          by (simp add: v0 Some False True split: option.splits)
      next
        case nostruct: False
        from False obtain m ms where ns: "ns = m # ms" by (cases ns) auto
        from nostruct have "lookup ns w = None"
          by (cases w) (auto simp: ns)
        then show ?thesis by (simp add: v0 Some False nostruct)
      qed
    qed
  qed
qed

lemma getConfigValue_lookup:
  assumes "kind_of (type_of c) = KStruct"
  shows "getConfigValue path c =
     (case lookup (Split path CHR ''.'') c of
        None \<Rightarrow> Inl (SchemaError path) | Some v \<Rightarrow> Inr (Sprintf_v v))"
  using get_walk_struct [OF assms, of "Split path CHR ''.''" path "[]"]
  by (simp add: getConfigValue_def get_walk_Ptr split: option.splits)

lemma map_of_with_field:
  "map_of fs n = Some w \<Longrightarrow> map_of (with_field n y fs) n = Some y"
  by (induction fs) (auto split: if_splits)

lemma map_of_with_field_other:
  "m \<noteq> n \<Longrightarrow> map_of (with_field n y fs) m = map_of fs m"
  by (induction fs) auto

lemma with_field_types:
  "map_of fs n = Some w \<Longrightarrow> type_of y = type_of w
   \<Longrightarrow> map (\<lambda>kv. (fst kv, type_of (snd kv))) (with_field n y fs)
       = map (\<lambda>kv. (fst kv, type_of (snd kv))) fs"
  by (induction fs) (auto split: if_splits)

lemma with_field_all:
  "list_all P fs \<Longrightarrow> P (n, y) \<Longrightarrow> list_all P (with_field n y fs)"
  by (induction fs) auto

lemma lookup_store:
  "lookup segs c = Some old \<Longrightarrow> lookup segs (store segs x c) = Some x"
proof (induction segs arbitrary: c old)
  case Nil
  then show ?case by simp
next
  case (Cons n ns)
  then obtain t fs w where c: "c = VStruct t fs" and w: "map_of fs n = Some w"
    and rest: "lookup ns w = Some old"
    by (cases c) (auto split: option.splits)
  from Cons.IH [OF rest] show ?case by (simp add: c w map_of_with_field)
qed

lemma digit_char_props:
  assumes "d < 10"
  shows "is_digit (digit_char d)" and "digit_val (digit_char d) = d"
    and "digit_char d \<noteq> CHR ''-''" and "digit_char d \<noteq> CHR ''+''"
proof -
  have oc: "of_char (digit_char d) = (48 + d :: nat)"
    using assms by (simp add: digit_char_def)
  show "is_digit (digit_char d)"
    using assms by (simp add: is_digit_def less_eq_char_def oc)
  show "digit_val (digit_char d) = d"
    by (simp add: digit_val_def oc)
  show "digit_char d \<noteq> CHR ''-''"
  proof
    assume "digit_char d = CHR ''-''"
    then have "of_char (digit_char d) = (of_char CHR ''-'' :: nat)" by simp
    then show False by (simp add: oc)
  qed
  show "digit_char d \<noteq> CHR ''+''"
  proof
    assume "digit_char d = CHR ''+''"
    then have "of_char (digit_char d) = (of_char CHR ''+'' :: nat)" by simp
    then show False by (simp add: oc)
  qed
qed

lemma parse_digits_append:
  "parse_digits acc (xs @ ys) =
     (case parse_digits acc xs of None \<Rightarrow> None | Some a \<Rightarrow> parse_digits a ys)"
  by (induction xs arbitrary: acc) auto

lemma parse_digits_Itoa_nat: "parse_digits 0 (Itoa_nat n) = Some n"
proof (induction n rule: Itoa_nat.induct)
  case (1 n)
  show ?case
  proof (cases "n < 10")
    case True
    then show ?thesis
      by (subst Itoa_nat.simps) (simp add: digit_char_props)
  next
    case False
    have m: "n mod 10 < 10" by simp
    from False 1 have "parse_digits 0 (Itoa_nat (n div 10)) = Some (n div 10)" by simp
    with False show ?thesis
      by (subst Itoa_nat.simps) (simp add: parse_digits_append digit_char_props [OF m])
  qed
qed

lemma Itoa_nat_head: "Itoa_nat n \<noteq> [] \<and> hd (Itoa_nat n) \<noteq> CHR ''-'' \<and> hd (Itoa_nat n) \<noteq> CHR ''+''"
proof (induction n rule: Itoa_nat.induct)
  case (1 n)
  show ?case
  proof (cases "n < 10")
    case True
    then show ?thesis
      by (subst (1 2 3) Itoa_nat.simps) (simp add: digit_char_props)
  next
    case False
    with 1 show ?thesis
      by (subst (1 2 3) Itoa_nat.simps) simp
  qed
qed

lemma Atoi_Itoa:
  assumes "int_min \<le> i" and "i \<le> int_max"
  shows "Atoi (Itoa i) = Some i"
proof (cases "i < 0")
  case True
  then show ?thesis
    using assms Itoa_nat_head [of "nat (- i)"]
    by (simp add: Atoi_def Itoa_def parse_digits_Itoa_nat)
next
  case False
  then show ?thesis
    using assms Itoa_nat_head [of "nat i"]
    by (simp add: Atoi_def Itoa_def parse_digits_Itoa_nat)
qed

lemma castStringToBool_true: "castStringToBool ''true''"
  by (simp add: castStringToBool_def ToLower_def lower_byte_def less_eq_char_def)

lemma castStringToBool_false: "\<not> castStringToBool ''false''"
  by (simp add: castStringToBool_def ToLower_def lower_byte_def)

lemmas schema_defs = struct_fields_def ConfigType_fields_def DbConfig_fields_def
  ldapMappings_fields_def oidcProvider_fields_def oidcEndpoint_fields_def

lemma zero_ConfigType_eq:
  "zero_ConfigType = VStruct ''ConfigType'' (zero_fields 1 ConfigType_fields)"
  by (simp add: zero_ConfigType_def numeral_2_eq_2 struct_fields_def)

lemma zero_is_ConfigType: "is_ConfigType zero_ConfigType"
  by (simp add: is_ConfigType_def zero_ConfigType_def numeral_2_eq_2 schema_defs int_min_def int_max_def)

lemma type_of_store:
  "lookup segs c = Some old \<Longrightarrow> type_of x = type_of old \<Longrightarrow> type_of (store segs x c) = type_of c"
  by (cases segs; cases c) (auto split: option.splits)

lemma conforms_store:
  "conforms c \<Longrightarrow> lookup segs c = Some old \<Longrightarrow> type_of x = type_of old \<Longrightarrow> conforms x
   \<Longrightarrow> conforms (store segs x c)"
proof (induction segs arbitrary: c)
  case Nil
  then show ?case by simp
next
  case (Cons n ns)
  then obtain t fs w where c: "c = VStruct t fs" and w: "map_of fs n = Some w"
    and rest: "lookup ns w = Some old"
    by (cases c) (auto split: option.splits)
  from w have win: "(n, w) \<in> set fs" by (rule map_of_SomeD)
  with Cons.prems(1) have cw: "conforms w" by (auto simp: c list_all_iff)
  have ty: "type_of (store ns x w) = type_of w"
    using rest Cons.prems(3) by (rule type_of_store)
  have co: "conforms (store ns x w)"
    using Cons.IH [OF cw rest Cons.prems(3) Cons.prems(4)] .
  show ?case
    using Cons.prems(1) co ty
    by (simp add: c w with_field_types [OF w ty] with_field_all)
qed

text \<open>
  Claim C9. When the dotted path does not resolve in the record (\<open>lookup\<close> is \<open>None\<close>: a
  segment before the last names no field or a field that is not a nested struct, or the
  last segment names no field), \<^verbatim>\<open>getConfigValue\<close> panics with the schema error carrying
  the path; it returns no value.
\<close>

theorem getConfigValue_unresolved_path_panics:
  assumes "is_ConfigType Config"
    and "lookup (Split path CHR ''.'') Config = None"
  shows "getConfigValue path Config = Inl (SchemaError path)"
proof -
  from assms(1) have "kind_of (type_of Config) = KStruct"
    by (simp add: is_ConfigType_def)
  from getConfigValue_lookup [OF this, of path] assms(2) show ?thesis by simp
qed

theorem getConfigValue_unresolved_path_panics_witness:
  "is_ConfigType zero_ConfigType
   \<and> lookup (Split ''Port.Number'' CHR ''.'') zero_ConfigType = None
   \<and> lookup (Split ''Nope'' CHR ''.'') zero_ConfigType = None
   \<and> getConfigValue ''Port.Number'' zero_ConfigType = Inl (SchemaError ''Port.Number'')
   \<and> getConfigValue ''Nope'' zero_ConfigType = Inl (SchemaError ''Nope'')"
proof -
  have a: "lookup (Split ''Port.Number'' CHR ''.'') zero_ConfigType = None"
    by (simp add: zero_ConfigType_eq ConfigType_fields_def)
  have b: "lookup (Split ''Nope'' CHR ''.'') zero_ConfigType = None"
    by (simp add: zero_ConfigType_eq ConfigType_fields_def)
  show ?thesis
    using getConfigValue_unresolved_path_panics [OF zero_is_ConfigType a]
      getConfigValue_unresolved_path_panics [OF zero_is_ConfigType b]
      zero_is_ConfigType a b
    by simp
qed

text \<open>
  Claim C8. When the segments before the last lead to a struct and the last segment names
  no field of it, \<^verbatim>\<open>setConfigValue\<close> returns normally and the record is the one it was
  given, whatever the value.
\<close>

theorem setConfigValue_missing_final_segment_is_noop:
  assumes "lookup (butlast (Split path CHR ''.'')) Config = Some (VStruct t fs)"
    and "map_of fs (last (Split path CHR ''.'')) = None"
  shows "setConfigValue path v Config = Inr Config"
proof -
  let ?segs = "Split path CHR ''.''"
  have segs: "?segs = butlast ?segs @ [last ?segs]" by simp
  have "set_walk (RField [] Config) (butlast ?segs @ [last ?segs]) = Inr RZero"
    using assms by (rule set_walk_missing_last)
  with segs have "set_walk (RPtr Config) ?segs = Inr RZero"
    by (simp add: set_walk_Ptr)
  then show ?thesis by (simp add: setConfigValue_def)
qed

theorem setConfigValue_missing_final_segment_is_noop_witness:
  "lookup (butlast (Split ''MySQL.Port'' CHR ''.'')) zero_ConfigType
      = Some (VStruct ''DbConfig'' (zero_fields 0 DbConfig_fields))
   \<and> map_of (zero_fields 0 DbConfig_fields) (last (Split ''MySQL.Port'' CHR ''.'')) = None
   \<and> setConfigValue ''MySQL.Port'' (VString ''3306'') zero_ConfigType = Inr zero_ConfigType"
proof -
  have a: "lookup (butlast (Split ''MySQL.Port'' CHR ''.'')) zero_ConfigType
      = Some (VStruct ''DbConfig'' (zero_fields 0 DbConfig_fields))"
    by (simp add: zero_ConfigType_eq ConfigType_fields_def struct_fields_def)
  have b: "map_of (zero_fields 0 DbConfig_fields) (last (Split ''MySQL.Port'' CHR ''.'')) = None"
    by (simp add: DbConfig_fields_def)
  show ?thesis
    using setConfigValue_missing_final_segment_is_noop [OF a b, of "VString ''3306''"] a b
    by simp
qed

lemma coerce_same_type:
  "type_of v = t \<Longrightarrow> coerce (kind_of t) v = Inr v"
  by (cases v) (auto simp: coerce_def)

lemma castStringToInt_conforms:
  "castStringToInt s = Inr i \<Longrightarrow> int_min \<le> i \<and> i \<le> int_max"
  unfolding castStringToInt_def Atoi_def Let_def
  by (simp split: option.splits if_splits)

lemma coerce_string_to_leaf:
  assumes "t \<in> {T_int, T_bool}" and "coerce_back t s = Inr v'"
  shows "coerce (kind_of t) (VString s) = Inr v' \<and> type_of v' = t \<and> conforms v'"
proof (cases "t = T_int")
  case True
  with assms(2) obtain i where i: "castStringToInt s = Inr i" and v': "v' = VInt i"
    by (cases "castStringToInt s") (auto simp: coerce_back_def)
  from castStringToInt_conforms [OF i] show ?thesis
    by (simp add: True coerce_def i v')
next
  case False
  with assms(1) have t: "t = T_bool" by simp
  with assms(2) show ?thesis
    by (auto simp: coerce_def coerce_back_def)
qed

lemma coerce_back_Sprintf_v:
  assumes "type_of v \<in> {T_int, T_bool, T_string}" and "conforms v"
  shows "coerce_back (type_of v) (Sprintf_v v) = Inr v"
proof (cases v)
  case (VInt i)
  with assms(2) have "Atoi (Itoa i) = Some i" by (simp add: Atoi_Itoa)
  then show ?thesis by (simp add: VInt coerce_back_def castStringToInt_def)
next
  case (VBool b)
  then show ?thesis
    by (cases b) (simp_all add: coerce_back_def castStringToBool_true castStringToBool_false)
qed (use assms(1) in \<open>simp_all add: coerce_back_def\<close>)

lemma map_of_typed:
  "map_of (map (\<lambda>kv. (fst kv, type_of (snd kv))) fs) n = map_option type_of (map_of fs n)"
  by (induction fs) auto

lemma conforms_field:
  assumes "conforms (VStruct t fs)" and "map_of (struct_fields t) n = Some ty"
  shows "\<exists>v. map_of fs n = Some v \<and> type_of v = ty \<and> conforms v"
proof -
  from assms(1) have eq: "map (\<lambda>kv. (fst kv, type_of (snd kv))) fs = struct_fields t"
    and all: "list_all (\<lambda>kv. conforms (snd kv)) fs" by simp_all
  from assms(2) map_of_typed [of fs n] eq
  have "map_option type_of (map_of fs n) = Some ty" by simp
  then obtain v where v: "map_of fs n = Some v" "type_of v = ty"
    by (cases "map_of fs n") auto
  from v(1) have "(n, v) \<in> set fs" by (rule map_of_SomeD)
  with all have "conforms v" by (auto simp: list_all_iff)
  with v show ?thesis by blast
qed

lemma ConfigType_cases:
  assumes "is_ConfigType c"
  obtains fs where "c = VStruct ''ConfigType'' fs"
  using assms by (cases c) (auto simp: is_ConfigType_def)

lemma ConfigType_field:
  assumes "is_ConfigType c" and "map_of ConfigType_fields n = Some ty"
  shows "\<exists>v. lookup [n] c = Some v \<and> type_of v = ty \<and> conforms v"
proof -
  from assms(1) obtain fs where c: "c = VStruct ''ConfigType'' fs" by (rule ConfigType_cases)
  from assms(1) have "conforms (VStruct ''ConfigType'' fs)" by (simp add: is_ConfigType_def c)
  from conforms_field [OF this, of n ty] assms(2) obtain v where
    "map_of fs n = Some v" "type_of v = ty" "conforms v"
    by (auto simp: struct_fields_def)
  then show ?thesis by (simp add: c)
qed

lemma string_field:
  assumes "is_ConfigType c" and "map_of ConfigType_fields n = Some T_string"
  shows "lookup [n] c = Some (VString (str_field n c))"
proof -
  from ConfigType_field [OF assms] obtain v where v: "lookup [n] c = Some v" "type_of v = T_string"
    by blast
  then show ?thesis by (cases v) (simp_all add: str_field_def)
qed

lemma Port_field: "is_ConfigType c \<Longrightarrow> lookup [''Port''] c = Some (VString (Port c))"
  unfolding Port_def by (rule string_field) (simp_all add: ConfigType_fields_def)

lemma is_ConfigType_store:
  assumes "is_ConfigType c" and "lookup loc c = Some old" and "type_of x = type_of old"
    and "conforms x"
  shows "is_ConfigType (store loc x c)"
  using assms conforms_store [of c loc old x] type_of_store [of loc c old x]
  by (simp add: is_ConfigType_def)

lemma Port_store:
  assumes "is_ConfigType c"
  shows "Port (store [''Port''] (VString p) c) = p"
proof -
  from lookup_store [OF Port_field [OF assms], of "VString p"]
  show ?thesis by (simp add: Port_def str_field_def)
qed

lemma normalizePort_is_ConfigType:
  assumes "is_ConfigType c"
  shows "is_ConfigType (normalizePort c)"
  using assms is_ConfigType_store [OF assms Port_field [OF assms], of "VString ('':'' @ Port c)"]
  by (simp add: normalizePort_def)

lemma Port_normalizePort:
  assumes "is_ConfigType c"
  shows "Port (normalizePort c) = (if HasPrefix (Port c) '':'' then Port c else '':'' @ Port c)"
  using Port_store [OF assms] by (simp add: normalizePort_def)

lemma normalizePort_idem:
  assumes "is_ConfigType c"
  shows "normalizePort (normalizePort c) = normalizePort c"
proof -
  have "HasPrefix (Port (normalizePort c)) '':''"
    by (simp add: Port_normalizePort [OF assms] HasPrefix_def)
  then show ?thesis by (subst normalizePort_def) simp
qed

lemma Contains_prefix: "Contains (sub @ post) sub"
proof (cases "sub @ post")
  case Nil
  then show ?thesis by simp
next
  case (Cons a list)
  have "take (length sub) (sub @ post) = sub" by simp
  with Cons show ?thesis by (simp add: HasPrefix_def)
qed

lemma Contains_infix: "Contains (pre @ sub @ post) sub"
proof (induction pre)
  case Nil
  show ?case using Contains_prefix by simp
next
  case (Cons c pre)
  then show ?case by simp
qed

lemma invalid_message_shows_value: "Contains (invalid_message a v r) v"
proof -
  have "invalid_message a v r =
      (''value of setting '' @ quote @ a @ quote @ '' is not valid: '' @ quote) @ v
        @ (quote @ '' (Must match regex: '' @ quote @ r @ quote @ '')'')"
    by (simp add: invalid_message_def)
  then show ?thesis by (simp only: Contains_infix)
qed

lemma getConfigValue_value_at:
  assumes "kind_of (type_of c) = KStruct" and "lookup (Split path CHR ''.'') c \<noteq> None"
  shows "getConfigValue path c = Inr (value_at path c)"
  using assms getConfigValue_lookup [OF assms(1), of path]
  by (auto simp: value_at_def)

lemma validate_entry_resolved:
  assumes "kind_of (type_of c) = KStruct" and "lookup (Split (fst e) CHR ''.'') c \<noteq> None"
  shows "validate_entry M c e reported =
           Inr (reported @ (if \<not> M (snd e) (value_at (fst e) c) then [message_for c e] else []))"
  using getConfigValue_value_at [OF assms]
  by (simp add: validate_entry_def Let_def message_for_def secret_name_def)

lemma validate_loop_resolved:
  assumes "kind_of (type_of c) = KStruct"
    and "\<forall>e \<in> set tbl. lookup (Split (fst e) CHR ''.'') c \<noteq> None"
  shows "validate_loop M c tbl reported = Inr (reported @ map (message_for c) (failing M c tbl))"
  using assms(2)
proof (induction tbl arbitrary: reported)
  case Nil
  show ?case by (simp add: failing_def)
next
  case (Cons e tbl)
  from Cons.prems have e: "lookup (Split (fst e) CHR ''.'') c \<noteq> None"
    and rest: "\<forall>e \<in> set tbl. lookup (Split (fst e) CHR ''.'') c \<noteq> None" by simp_all
  show ?case
    using Cons.IH [OF rest] validate_entry_resolved [OF assms(1) e, of M reported]
    by (simp add: failing_def)
qed

lemma validate_table_resolved:
  assumes "is_ConfigType Config"
    and "\<forall>e \<in> set (iter tbl). lookup (Split (fst e) CHR ''.'') (normalizePort Config) \<noteq> None"
  shows "validate_table M iter tbl Config =
     Inr (normalizePort Config,
          map (message_for (normalizePort Config)) (failing M (normalizePort Config) (iter tbl)))"
proof -
  from normalizePort_is_ConfigType [OF assms(1)]
  have "kind_of (type_of (normalizePort Config)) = KStruct" by (simp add: is_ConfigType_def)
  from validate_loop_resolved [OF this assms(2), of M "[]"]
  show ?thesis by (simp add: validate_table_def Let_def)
qed

lemma range_order_set: "range_order iter \<Longrightarrow> set (iter m) = set m"
  by (metis range_order_def set_mset_mset)

lemma validation_paths_resolve:
  assumes "is_ConfigType c" and "e \<in> set configValidationRegex"
  shows "lookup (Split (fst e) CHR ''.'') c \<noteq> None"
proof -
  from assms(2) have "Split (fst e) CHR ''.'' = [fst e] \<and> map_of ConfigType_fields (fst e) \<noteq> None"
    by (auto simp: configValidationRegex_def ConfigType_fields_def)
  then obtain ty where "Split (fst e) CHR ''.'' = [fst e]" "map_of ConfigType_fields (fst e) = Some ty"
    by auto
  with ConfigType_field [OF assms(1), of "fst e" ty] show ?thesis by auto
qed

lemma validateConfig_result:
  assumes "is_ConfigType Config" and "range_order iter"
  shows "validateConfig iter Config =
     Inr (normalizePort Config,
          map (message_for (normalizePort Config))
            (failing MatchString (normalizePort Config) (iter configValidationRegex)))"
  unfolding validateConfig_def
proof (rule validate_table_resolved [OF assms(1)])
  show "\<forall>e \<in> set (iter configValidationRegex).
          lookup (Split (fst e) CHR ''.'') (normalizePort Config) \<noteq> None"
    using validation_paths_resolve [OF normalizePort_is_ConfigType [OF assms(1)]]
      range_order_set [OF assms(2)] by blast
qed

lemma no_secret_names_in_table:
  "e \<in> set configValidationRegex \<Longrightarrow> \<not> secret_name (fst e)"
  by (auto simp: configValidationRegex_def secret_name_def HasPrefix_def)

lemma range_order_id: "range_order id"
  by (simp add: range_order_def)

text \<open>
  Claim C10. \<^verbatim>\<open>validateConfig\<close> returns the record with the port normalized: a port that
  does not begin with the colon gets one colon in front, a port that begins with it is
  kept; so the port of the result begins with the colon, and normalizing again changes
  nothing.
\<close>

theorem port_normalization:
  assumes "is_ConfigType Config" and "range_order iter"
  shows "\<exists>reported. validateConfig iter Config = Inr (normalizePort Config, reported)
      \<and> Port (normalizePort Config)
          = (if HasPrefix (Port Config) '':'' then Port Config else '':'' @ Port Config)
      \<and> HasPrefix (Port (normalizePort Config)) '':''
      \<and> normalizePort (normalizePort Config) = normalizePort Config"
proof -
  have a: "Port (normalizePort Config)
          = (if HasPrefix (Port Config) '':'' then Port Config else '':'' @ Port Config)"
    using assms(1) by (rule Port_normalizePort)
  have b: "HasPrefix (Port (normalizePort Config)) '':''"
    by (simp add: a HasPrefix_def)
  have c: "normalizePort (normalizePort Config) = normalizePort Config"
    using assms(1) by (rule normalizePort_idem)
  from validateConfig_result [OF assms] a b c show ?thesis by blast
qed

lemma cfg_port_ok: "is_ConfigType cfg_port"
  unfolding cfg_port_def
  by (rule is_ConfigType_store [OF zero_is_ConfigType Port_field [OF zero_is_ConfigType]]) simp_all

lemma cfg_port_Port: "Port cfg_port = ''3000''"
  unfolding cfg_port_def using zero_is_ConfigType by (rule Port_store)

theorem port_normalization_witness:
  "is_ConfigType cfg_port \<and> range_order id
   \<and> (\<exists>reported. validateConfig id cfg_port = Inr (normalizePort cfg_port, reported))
   \<and> Port cfg_port = ''3000'' \<and> Port (normalizePort cfg_port) = '':3000''
   \<and> normalizePort (normalizePort cfg_port) = normalizePort cfg_port"
  using port_normalization [OF cfg_port_ok range_order_id] cfg_port_ok range_order_id
  by (auto simp: cfg_port_Port HasPrefix_def)

text \<open>
  Claim C6. No attribute name of \<open>configValidationRegex\<close> contains \<^verbatim>\<open>assword\<close> or
  \<^verbatim>\<open>ecret\<close>. So \<^verbatim>\<open>validateConfig\<close> reports every entry whose value its pattern rejects
  with the message that shows the value, the three keys \<^verbatim>\<open>CookieHash\<close>,
  \<^verbatim>\<open>CookieEncryption\<close> and \<^verbatim>\<open>AccessKeyEncryption\<close> included, and it reports nothing else.
\<close>

theorem table_failures_show_value:
  assumes "is_ConfigType Config" and "range_order iter"
  shows "\<exists>reported. validateConfig iter Config = Inr (normalizePort Config, reported)
     \<and> (\<forall>e \<in> set configValidationRegex.
           \<not> Contains (fst e) ''assword'' \<and> \<not> Contains (fst e) ''ecret''
           \<and> (\<not> MatchString (snd e) (value_at (fst e) (normalizePort Config)) \<longrightarrow>
                invalid_message (fst e) (value_at (fst e) (normalizePort Config)) (snd e)
                  \<in> set reported
                \<and> Contains
                    (invalid_message (fst e) (value_at (fst e) (normalizePort Config)) (snd e))
                    (value_at (fst e) (normalizePort Config))))
     \<and> (\<forall>m \<in> set reported. \<exists>e \<in> set configValidationRegex.
           m = invalid_message (fst e) (value_at (fst e) (normalizePort Config)) (snd e))"
proof -
  let ?c = "normalizePort Config"
  let ?reported = "map (message_for ?c) (failing MatchString ?c (iter configValidationRegex))"
  have res: "validateConfig iter Config = Inr (?c, ?reported)"
    using assms by (rule validateConfig_result)
  have tbl: "set (iter configValidationRegex) = set configValidationRegex"
    using assms(2) by (rule range_order_set)
  have msg: "message_for ?c e = invalid_message (fst e) (value_at (fst e) ?c) (snd e)"
    if "e \<in> set configValidationRegex" for e
    using no_secret_names_in_table [OF that] by (simp add: message_for_def)
  have names: "\<not> Contains (fst e) ''assword'' \<and> \<not> Contains (fst e) ''ecret''"
    if "e \<in> set configValidationRegex" for e
    using no_secret_names_in_table [OF that] by (simp add: secret_name_def)
  have shown: "invalid_message (fst e) (value_at (fst e) ?c) (snd e) \<in> set ?reported"
    if "e \<in> set configValidationRegex" "\<not> MatchString (snd e) (value_at (fst e) ?c)" for e
  proof -
    from that tbl have "e \<in> set (failing MatchString ?c (iter configValidationRegex))"
      by (simp add: failing_def)
    then have "message_for ?c e \<in> set ?reported" by simp
    with msg [OF that(1)] show ?thesis by simp
  qed
  have only: "\<exists>e \<in> set configValidationRegex.
                m = invalid_message (fst e) (value_at (fst e) ?c) (snd e)"
    if "m \<in> set ?reported" for m
  proof -
    from that obtain e where e: "e \<in> set (failing MatchString ?c (iter configValidationRegex))"
      and m: "m = message_for ?c e" by auto
    from e tbl have "e \<in> set configValidationRegex" by (simp add: failing_def)
    with m msg show ?thesis by blast
  qed
  show ?thesis
    using res names shown only invalid_message_shows_value by blast
qed

lemma Split_no_dot: "CHR ''.'' \<notin> set s \<Longrightarrow> Split s CHR ''.'' = [s]"
  by (induction s) auto

lemma lookup_store_top:
  "lookup [n] (store [m] x c) = (if n = m \<and> lookup [m] c \<noteq> None then Some x else lookup [n] c)"
  by (cases c) (auto simp: map_of_with_field map_of_with_field_other split: option.splits)

lemma is_ConfigType_store_top:
  assumes "is_ConfigType c" and "map_of ConfigType_fields n = Some (type_of x)" and "conforms x"
  shows "is_ConfigType (store [n] x c)"
proof -
  from ConfigType_field [OF assms(1,2)] obtain old where
    "lookup [n] c = Some old" "type_of old = type_of x" by blast
  with is_ConfigType_store [OF assms(1), of "[n]" old x] assms(3) show ?thesis by simp
qed

lemma cfg_valid_ok: "is_ConfigType cfg_valid"
  unfolding cfg_valid_def
  by (intro is_ConfigType_store_top zero_is_ConfigType) (simp_all add: ConfigType_fields_def)

lemma cfg_mysqlx_ok: "is_ConfigType cfg_mysqlx"
  unfolding cfg_mysqlx_def
  by (intro is_ConfigType_store_top cfg_valid_ok) (simp_all add: ConfigType_fields_def)

lemma cfg_short_hash_ok: "is_ConfigType cfg_short_hash"
  unfolding cfg_short_hash_def
  by (intro is_ConfigType_store_top cfg_valid_ok) (simp_all add: ConfigType_fields_def)

lemma lookup_zero_top:
  "lookup [n] zero_ConfigType = map_of (zero_fields 1 ConfigType_fields) n"
  by (simp add: zero_ConfigType_eq split: option.splits)

lemma coerce_int_leaf:
  "coerce KInt v =
     (case stored_as T_int v of None \<Rightarrow> Inl (CoercionError (Sprintf_v v)) | Some w \<Rightarrow> Inr w)"
  by (cases v) (simp_all add: coerce_def stored_as_def castStringToInt_def split: option.splits)

lemma coerce_bool_leaf:
  "\<exists>w. stored_as T_bool v = Some w \<and> coerce KBool v = Inr w"
  by (cases v) (simp_all add: coerce_def stored_as_def castStringToBool_def ToLower_def)

lemma coerce_string_leaf: "coerce KString v = Inr v"
  by (simp add: coerce_def)

lemma stored_as_type:
  assumes "stored_as t v = Some w" and "conforms v"
  shows "type_of w = t \<and> conforms w"
proof -
  consider "t = T_int" | "t = T_bool" | "t = T_string" | "t \<notin> {T_int, T_bool, T_string}" by blast
  then show ?thesis
  proof cases
    case 1
    show ?thesis
    proof (cases "\<exists>i. v = VInt i")
      case True
      with assms 1 show ?thesis by (auto simp: stored_as_def)
    next
      case False
      with assms(1) 1 obtain i where i: "Atoi (Sprintf_v v) = Some i" and w: "w = VInt i"
        by (cases v) (auto simp: stored_as_def)
      from i have "castStringToInt (Sprintf_v v) = Inr i" by (simp add: castStringToInt_def)
      from castStringToInt_conforms [OF this] show ?thesis by (simp add: w 1)
    qed
  next
    case 2
    with assms(1) show ?thesis by (cases v) (auto simp: stored_as_def)
  next
    case 3
    with assms(1) show ?thesis by (cases v) (auto simp: stored_as_def)
  next
    case 4
    with assms(1) show ?thesis by (simp add: stored_as_def)
  qed
qed

lemma coerce_stored_as:
  assumes "t \<in> {T_int, T_bool, T_string}"
  shows "case stored_as t v of
           Some w \<Rightarrow> coerce (kind_of t) v = Inr w
         | None \<Rightarrow>
             (if t = T_int then coerce (kind_of t) v = Inl (CoercionError (Sprintf_v v))
              else coerce (kind_of t) v = Inr v \<and> type_of v \<noteq> t)"
proof -
  consider "t = T_int" | "t = T_bool" | "t = T_string" using assms by blast
  then show ?thesis
  proof cases
    case 1
    then show ?thesis using coerce_int_leaf [of v] by (simp split: option.splits)
  next
    case 2
    then show ?thesis using coerce_bool_leaf [of v] by auto
  next
    case 3
    then show ?thesis by (cases v) (simp_all add: coerce_string_leaf stored_as_def)
  qed
qed

text \<open>
  Claim C7, as amended. For a path that resolves to a leaf of type \<^verbatim>\<open>int\<close>, \<^verbatim>\<open>bool\<close> or
  \<^verbatim>\<open>string\<close> and any Go value \<open>v\<close>: when the leaf takes \<open>v\<close> (\<open>stored_as\<close> gives the value
  \<open>w\<close> it is stored as: \<open>v\<close> itself, or what its string form is coerced to), \<^verbatim>\<open>set\<close>
  succeeds, \<^verbatim>\<open>get\<close> then returns the rendering of \<open>w\<close>, and that rendering reads back as
  \<open>w\<close>; when the leaf refuses \<open>v\<close>, \<^verbatim>\<open>set\<close> panics: with the coercion error for an
  integer leaf, inside \<^verbatim>\<open>reflect.Value.Set\<close> for a string leaf. The hypothesis \<open>conforms v\<close>
  only says that an integer \<open>v\<close> is in the range of \<^verbatim>\<open>int\<close>.
\<close>

theorem set_then_get_scalar_leaf:
  assumes "is_ConfigType Config"
    and "lookup (Split path CHR ''.'') Config = Some old"
    and "type_of old \<in> {T_int, T_bool, T_string}"
    and "conforms v"
  shows "case stored_as (type_of old) v of
           Some w \<Rightarrow>
             (\<exists>Config'. setConfigValue path v Config = Inr Config' \<and> is_ConfigType Config'
                \<and> getConfigValue path Config' = Inr (Sprintf_v w)
                \<and> coerce_back (type_of old) (Sprintf_v w) = Inr w)
         | None \<Rightarrow>
             setConfigValue path v Config =
               Inl (if type_of old = T_int then CoercionError (Sprintf_v v)
                    else ReflectPanic (not_assignable (type_of v) (type_of old)))"
proof -
  let ?segs = "Split path CHR ''.''"
  let ?t = "type_of old"
  have walk: "set_walk (RPtr Config) ?segs = Inr (RField ?segs old)"
    using set_walk_resolves [OF assms(2), of "[]"] by (simp add: set_walk_Ptr)
  have unfold: "setConfigValue path v Config =
      and_then (coerce (kind_of ?t) v) (\<lambda>v'. Set_value (RField ?segs old) v' Config)"
    by (simp add: setConfigValue_def walk)
  show ?thesis
  proof (cases "stored_as ?t v")
    case None
    with coerce_stored_as [OF assms(3), of v] show ?thesis
      by (auto simp: unfold split: if_splits)
  next
    case (Some w)
    with coerce_stored_as [OF assms(3), of v] have co: "coerce (kind_of ?t) v = Inr w" by simp
    from stored_as_type [OF Some assms(4)] have ty: "type_of w = ?t" and cw: "conforms w"
      by simp_all
    let ?c' = "store ?segs w Config"
    have st: "setConfigValue path v Config = Inr ?c'"
      by (simp add: unfold co ty)
    have conf: "is_ConfigType ?c'"
      using assms(1,2) ty cw by (rule is_ConfigType_store)
    then have "kind_of (type_of ?c') = KStruct" by (simp add: is_ConfigType_def)
    from getConfigValue_lookup [OF this, of path] lookup_store [OF assms(2), of w]
    have gt: "getConfigValue path ?c' = Inr (Sprintf_v w)" by simp
    have cb: "coerce_back ?t (Sprintf_v w) = Inr w"
      using coerce_back_Sprintf_v [of w] assms(3) ty cw by simp
    from st conf gt cb show ?thesis by (auto simp: Some)
  qed
qed

lemma setConfigValue_resolved:
  assumes "lookup (Split path CHR ''.'') Config = Some old"
  shows "setConfigValue path v Config =
      and_then (coerce (kind_of (type_of old)) v)
        (\<lambda>v'. Set_value (RField (Split path CHR ''.'') old) v' Config)"
  using set_walk_resolves [OF assms, of "[]"] by (simp add: setConfigValue_def set_walk_Ptr)

lemma lookup_MaxParallelTasks:
  "lookup (Split ''MaxParallelTasks'' CHR ''.'') zero_ConfigType = Some (VInt 0)"
  by (simp add: zero_ConfigType_eq ConfigType_fields_def)

lemma lookup_Port_zero:
  "lookup (Split ''Port'' CHR ''.'') zero_ConfigType = Some (VString [])"
  by (simp add: zero_ConfigType_eq ConfigType_fields_def)

lemma lookup_Dialect_zero:
  "lookup (Split ''Dialect'' CHR ''.'') zero_ConfigType = Some (VDbDriver [])"
  by (simp add: zero_ConfigType_eq ConfigType_fields_def)

lemma Atoi_abc: "Atoi ''abc'' = None"
  by (simp add: Atoi_def is_digit_def)

lemma Atoi_007: "Atoi ''007'' = Some 7"
  by (simp add: Atoi_def is_digit_def digit_val_def int_min_def int_max_def)

lemma Sprintf_v_7: "Sprintf_v (VInt 7) = ''7''"
  by code_simp

theorem set_then_get_scalar_leaf_witness:
  "is_ConfigType zero_ConfigType
   \<and> lookup (Split ''MaxParallelTasks'' CHR ''.'') zero_ConfigType = Some (VInt 0)
   \<and> type_of (VInt 0) \<in> {T_int, T_bool, T_string}
   \<and> conforms (VString ''007'')
   \<and> stored_as (type_of (VInt 0)) (VString ''007'') = Some (VInt 7)
   \<and> (\<exists>Config'. setConfigValue ''MaxParallelTasks'' (VString ''007'') zero_ConfigType = Inr Config'
          \<and> is_ConfigType Config'
          \<and> getConfigValue ''MaxParallelTasks'' Config' = Inr ''7''
          \<and> coerce_back (type_of (VInt 0)) ''7'' = Inr (VInt 7))"
proof -
  have b: "type_of (VInt 0) \<in> {T_int, T_bool, T_string}" by simp
  have c: "conforms (VString ''007'')" by simp
  have d: "stored_as (type_of (VInt 0)) (VString ''007'') = Some (VInt 7)"
    by (simp add: stored_as_def Atoi_007)
  from set_then_get_scalar_leaf [OF zero_is_ConfigType lookup_MaxParallelTasks b c]
  have r: "\<exists>Config'. setConfigValue ''MaxParallelTasks'' (VString ''007'') zero_ConfigType = Inr Config'
          \<and> is_ConfigType Config'
          \<and> getConfigValue ''MaxParallelTasks'' Config' = Inr ''7''
          \<and> coerce_back (type_of (VInt 0)) ''7'' = Inr (VInt 7)"
    by (simp only: d option.case Sprintf_v_7)
  show ?thesis
    by (intro conjI) (rule zero_is_ConfigType lookup_MaxParallelTasks b c d r)+
qed

text \<open>
  The claim as it is worded fails: a string that is no integer literal, given for the
  integer leaf, and an integer given for a string leaf make \<^verbatim>\<open>set\<close> panic, so that there
  is nothing to read back.
\<close>

theorem set_refuses_values_counterexample:
  "lookup (Split ''MaxParallelTasks'' CHR ''.'') zero_ConfigType = Some (VInt 0)
   \<and> setConfigValue ''MaxParallelTasks'' (VString ''abc'') zero_ConfigType
       = Inl (CoercionError ''abc'')
   \<and> lookup (Split ''Port'' CHR ''.'') zero_ConfigType = Some (VString [])
   \<and> setConfigValue ''Port'' (VInt 3000) zero_ConfigType
       = Inl (ReflectPanic ''reflect.Set: value of type int is not assignable to type string'')"
proof -
  have a: "setConfigValue ''MaxParallelTasks'' (VString ''abc'') zero_ConfigType
       = Inl (CoercionError ''abc'')"
    by (simp add: setConfigValue_resolved [OF lookup_MaxParallelTasks] coerce_def
        castStringToInt_def Atoi_abc)
  have b: "setConfigValue ''Port'' (VInt 3000) zero_ConfigType
       = Inl (ReflectPanic ''reflect.Set: value of type int is not assignable to type string'')"
    by (simp add: setConfigValue_resolved [OF lookup_Port_zero] coerce_def not_assignable_def)
  show ?thesis
    by (intro conjI) (rule lookup_MaxParallelTasks lookup_Port_zero a b)+
qed

text \<open>
  The two leaves of a named string type are outside the amended claim: a plain string,
  which is what the environment stage passes, is refused by \<^verbatim>\<open>reflect.Value.Set\<close>.
\<close>

lemma plain_string_into_Dialect_panics:
  "setConfigValue ''Dialect'' (VString ''mysql'') zero_ConfigType
     = Inl (ReflectPanic
         ''reflect.Set: value of type string is not assignable to type util.DbDriver'')"
  by (simp add: setConfigValue_resolved [OF lookup_Dialect_zero] coerce_def not_assignable_def)

lemma value_at_top:
  "CHR ''.'' \<notin> set n \<Longrightarrow>
     value_at n c = (case lookup [n] c of None \<Rightarrow> [] | Some v \<Rightarrow> Sprintf_v v)"
  by (simp add: value_at_def Split_no_dot)

lemma lookup_store_same: "lookup [m] c \<noteq> None \<Longrightarrow> lookup [m] (store [m] x c) = Some x"
  by (simp only: lookup_store_top) simp

lemma lookup_store_other: "n \<noteq> m \<Longrightarrow> lookup [n] (store [m] x c) = lookup [n] c"
  by (simp only: lookup_store_top) simp

lemma lookup_store_defined:
  "lookup [n] (store [m] x c) = None \<longleftrightarrow> lookup [n] c = None"
  by (simp only: lookup_store_top) auto

lemmas eval_top = lookup_store_same lookup_store_other lookup_store_defined lookup_zero_top
  ConfigType_fields_def

lemma cfg_valid_lookup:
  "lookup [''Dialect''] cfg_valid = Some (VDbDriver ''mysql'')"
  "lookup [''Port''] cfg_valid = Some (VString '':3000'')"
  "lookup [''GitClientId''] cfg_valid = Some (VGitClientId ''go_git'')"
  "lookup [''CookieHash''] cfg_valid = Some (VString key44)"
  "lookup [''CookieEncryption''] cfg_valid = Some (VString key44)"
  "lookup [''AccessKeyEncryption''] cfg_valid = Some (VString key44)"
  "lookup [''EmailPort''] cfg_valid = Some (VString [])"
  "lookup [''MaxParallelTasks''] cfg_valid = Some (VInt 0)"
  unfolding cfg_valid_def
  by (simp_all add: eval_top del: store.simps lookup.simps)


lemma cfg_mysqlx_lookup:
  "lookup [''Dialect''] cfg_mysqlx = Some (VDbDriver ''mysqlx'')"
  "lookup [''Port''] cfg_mysqlx = Some (VString '':3000'')"
  "lookup [''GitClientId''] cfg_mysqlx = Some (VGitClientId ''go_git'')"
  "lookup [''CookieHash''] cfg_mysqlx = Some (VString key44)"
  "lookup [''CookieEncryption''] cfg_mysqlx = Some (VString key44)"
  "lookup [''AccessKeyEncryption''] cfg_mysqlx = Some (VString key44)"
  "lookup [''EmailPort''] cfg_mysqlx = Some (VString [])"
  "lookup [''MaxParallelTasks''] cfg_mysqlx = Some (VInt 0)"
  unfolding cfg_mysqlx_def
  by (simp_all add: cfg_valid_lookup lookup_store_same lookup_store_other
      del: store.simps lookup.simps)

lemma cfg_short_hash_lookup:
  "lookup [''Port''] cfg_short_hash = Some (VString '':3000'')"
  "lookup [''CookieHash''] cfg_short_hash = Some (VString ''short'')"
  unfolding cfg_short_hash_def
  by (simp_all add: cfg_valid_lookup lookup_store_same lookup_store_other
      del: store.simps lookup.simps)

lemma normalizePort_kept:
  assumes "lookup [''Port''] c = Some (VString p)" and "HasPrefix p '':''"
  shows "normalizePort c = c"
  using assms by (simp add: normalizePort_def Port_def str_field_def del: lookup.simps)

lemma Sprintf_v_0: "Sprintf_v (VInt 0) = ''0''"
  by code_simp

lemma match_dialect_mysqlx: "MatchString ''^mysql|bolt|postgres$'' ''mysqlx''"
  by (simp add: MatchString_def Compile_def dialect_regex_def)

lemma no_whole_match_mysqlx: "\<not> whole_match dialect_regex ''mysqlx''"
  by (simp add: whole_match_def dialect_regex_def)

lemma match_port_3000: "MatchString ''^:([0-9]{1,5})$'' '':3000''"
  by (simp add: MatchString_def Compile_def digit_class_def eval_nat_numeral)

lemma match_go_git: "MatchString ''^go_git|cmd_git$'' ''go_git''"
  by (simp add: MatchString_def Compile_def git_client_regex_def)

lemma match_key44: "MatchString base64_pattern key44"
  by (simp add: MatchString_def Compile_def base64_pattern_def base64_class_def key44_def
      eval_nat_numeral)

lemma no_match_short: "\<not> MatchString base64_pattern ''short''"
  by (simp add: MatchString_def Compile_def base64_pattern_def base64_class_def
      eval_nat_numeral)

lemma match_email_port_empty: "MatchString ''^(|[0-9]{1,5})$'' []"
  by (simp add: MatchString_def Compile_def base64_pattern_def digit_class_def eval_nat_numeral)

lemma match_tasks_0: "MatchString ''^[0-9]{1,10}$'' ''0''"
  by (simp add: MatchString_def Compile_def base64_pattern_def digit_class_def eval_nat_numeral)

text \<open>
  Claim C5. The pattern of \<^verbatim>\<open>Dialect\<close> is an alternation without a group, so that
  \<^verbatim>\<open>^\<close> holds for \<^verbatim>\<open>mysql\<close> only and \<^verbatim>\<open>$\<close> for \<^verbatim>\<open>postgres\<close> only: the dialect
  \<^verbatim>\<open>mysqlx\<close> is not matched as a whole, yet \<^verbatim>\<open>regexp.MatchString\<close> finds a match in it, and
  \<^verbatim>\<open>validateConfig\<close> reports nothing for a record that is valid but for this dialect.
\<close>

theorem validateConfig_accepts_dialect_mysqlx:
  "is_ConfigType cfg_mysqlx
   \<and> value_at ''Dialect'' cfg_mysqlx = ''mysqlx''
   \<and> Compile ''^mysql|bolt|postgres$'' = Some dialect_regex
   \<and> \<not> whole_match dialect_regex ''mysqlx''
   \<and> MatchString ''^mysql|bolt|postgres$'' ''mysqlx''
   \<and> validateConfig id cfg_mysqlx = Inr (cfg_mysqlx, [])"
proof -
  have v: "value_at ''Dialect'' cfg_mysqlx = ''mysqlx''"
    by (simp add: value_at_top cfg_mysqlx_lookup del: lookup.simps)
  have c: "Compile ''^mysql|bolt|postgres$'' = Some dialect_regex"
    by (simp add: Compile_def)
  have n: "normalizePort cfg_mysqlx = cfg_mysqlx"
    by (rule normalizePort_kept [OF cfg_mysqlx_lookup(2)]) (simp add: HasPrefix_def)
  have f: "failing MatchString cfg_mysqlx configValidationRegex = []"
    by (simp add: failing_def configValidationRegex_def value_at_top cfg_mysqlx_lookup
        Sprintf_v_0 match_dialect_mysqlx match_port_3000 match_go_git match_key44
        match_email_port_empty match_tasks_0 del: lookup.simps Sprintf_v.simps(2))
  have r: "validateConfig id cfg_mysqlx = Inr (cfg_mysqlx, [])"
    using validateConfig_result [OF cfg_mysqlx_ok range_order_id] by (simp add: n f)
  show ?thesis
    by (intro conjI) (rule cfg_mysqlx_ok v c no_whole_match_mysqlx match_dialect_mysqlx r)+
qed

theorem table_failures_show_value_witness:
  "is_ConfigType cfg_short_hash \<and> range_order id
   \<and> (\<exists>reported. validateConfig id cfg_short_hash = Inr (cfg_short_hash, reported)
         \<and> invalid_message ''CookieHash'' ''short'' base64_pattern \<in> set reported
         \<and> Contains (invalid_message ''CookieHash'' ''short'' base64_pattern) ''short'')"
proof -
  have n: "normalizePort cfg_short_hash = cfg_short_hash"
    by (rule normalizePort_kept [OF cfg_short_hash_lookup(1)]) (simp add: HasPrefix_def)
  have v: "value_at ''CookieHash'' cfg_short_hash = ''short''"
    by (simp add: value_at_top cfg_short_hash_lookup del: lookup.simps)
  have e: "(''CookieHash'', base64_pattern) \<in> set configValidationRegex"
    by (simp add: configValidationRegex_def)
  from table_failures_show_value [OF cfg_short_hash_ok range_order_id]
  obtain reported where r: "validateConfig id cfg_short_hash = Inr (cfg_short_hash, reported)"
    and all: "\<forall>e \<in> set configValidationRegex.
           \<not> Contains (fst e) ''assword'' \<and> \<not> Contains (fst e) ''ecret''
           \<and> (\<not> MatchString (snd e) (value_at (fst e) cfg_short_hash) \<longrightarrow>
                invalid_message (fst e) (value_at (fst e) cfg_short_hash) (snd e)
                  \<in> set reported
                \<and> Contains
                    (invalid_message (fst e) (value_at (fst e) cfg_short_hash) (snd e))
                    (value_at (fst e) cfg_short_hash))"
    unfolding n by blast
  from bspec [OF all e] no_match_short
  have "invalid_message ''CookieHash'' ''short'' base64_pattern \<in> set reported
         \<and> Contains (invalid_message ''CookieHash'' ''short'' base64_pattern) ''short''"
    by (simp add: v)
  with r cfg_short_hash_ok range_order_id show ?thesis by blast
qed

lemma lookup_Cons:
  "lookup (n # ns) c = (case lookup [n] c of None \<Rightarrow> None | Some v \<Rightarrow> lookup ns v)"
  by (cases c) (auto split: option.splits)

lemma lookup_store_other_path:
  "n \<noteq> m \<Longrightarrow> lookup (n # ns) (store (m # ms) x c) = lookup (n # ns) c"
  by (cases c) (auto simp: map_of_with_field_other split: option.splits)

lemma zero_DbConfig_lookup:
  "lookup [''MySQL''] zero_ConfigType = Some zero_DbConfig"
  "lookup [''BoltDb''] zero_ConfigType = Some zero_DbConfig"
  "lookup [''Postgres''] zero_ConfigType = Some zero_DbConfig"
  by (simp_all add: lookup_zero_top ConfigType_fields_def zero_DbConfig_def struct_fields_def
      del: lookup.simps)

lemma zero_DbConfig_Hostname: "lookup [''Hostname''] zero_DbConfig = Some (VString [])"
  by (simp add: zero_DbConfig_def struct_fields_def DbConfig_fields_def)

lemma cfg_valid_sub:
  "lookup [''MySQL''] cfg_valid = Some zero_DbConfig"
  "lookup [''BoltDb''] cfg_valid = Some zero_DbConfig"
  "lookup [''Postgres''] cfg_valid = Some zero_DbConfig"
  unfolding cfg_valid_def
  by (simp_all add: lookup_store_other zero_DbConfig_lookup del: store.simps lookup.simps)

lemma cfg_valid_hosts:
  "lookup [''MySQL'', ''Hostname''] cfg_valid = Some (VString [])"
  "lookup [''BoltDb'', ''Hostname''] cfg_valid = Some (VString [])"
  by (simp_all add: lookup_Cons [of _ "[''Hostname'']"] cfg_valid_sub zero_DbConfig_Hostname
      del: lookup.simps)

lemma Split_MySQL_Hostname: "Split ''MySQL.Hostname'' CHR ''.'' = [''MySQL'', ''Hostname'']"
  by simp

lemma Split_BoltDb_Hostname: "Split ''BoltDb.Hostname'' CHR ''.'' = [''BoltDb'', ''Hostname'']"
  by simp

lemma setConfigValue_string:
  assumes "lookup (Split path CHR ''.'') c = Some (VString old)"
  shows "setConfigValue path (VString s) c = Inr (store (Split path CHR ''.'') (VString s) c)"
  by (simp add: setConfigValue_resolved [OF assms] coerce_def)

lemma env_entry_unset: "env (snd e) = None \<Longrightarrow> env_entry env e c = Inr c"
  by (simp add: env_entry_def Let_def)

lemma env_entry_skipped: "skipped (fst e) c \<Longrightarrow> env_entry env e c = Inr c"
  by (simp add: env_entry_def Let_def)

lemma env_entry_set:
  "\<not> skipped (fst e) c \<Longrightarrow> env (snd e) = Some v \<Longrightarrow> v \<noteq> [] \<Longrightarrow>
     env_entry env e c = setConfigValue (fst e) (VString v) c"
  by (simp add: env_entry_def Let_def)


lemma DbConfig_Hostname:
  assumes "is_ConfigType c" and "map_of ConfigType_fields n = Some (T_struct ''DbConfig'')"
  shows "\<exists>h. lookup [n, ''Hostname''] c = Some (VString h)"
proof -
  from ConfigType_field [OF assms] obtain d where d: "lookup [n] c = Some d"
    "type_of d = T_struct ''DbConfig''" "conforms d" by blast
  then obtain fs where fs: "d = VStruct ''DbConfig'' fs" by (cases d) auto
  have "map_of (struct_fields ''DbConfig'') ''Hostname'' = Some T_string"
    by (simp add: struct_fields_def DbConfig_fields_def)
  from conforms_field [OF d(3) [unfolded fs] this] obtain w where
    w: "map_of fs ''Hostname'' = Some w" "type_of w = T_string" by blast
  then obtain h where h: "w = VString h" by (cases w) auto
  have "lookup [n, ''Hostname''] c
      = (case lookup [n] c of None \<Rightarrow> None | Some v \<Rightarrow> lookup [''Hostname''] v)"
    by (rule lookup_Cons)
  also have "\<dots> = lookup [''Hostname''] d" by (simp only: d(1) option.case)
  also have "\<dots> = Some (VString h)" by (simp add: fs w(1) h)
  finally show ?thesis by blast
qed

lemma Dialect_store_other_path:
  "m \<noteq> ''Dialect'' \<Longrightarrow> Dialect (store (m # ms) x c) = Dialect c"
  by (simp add: Dialect_def str_field_def lookup_store_other_path del: store.simps lookup.simps)

lemma host_entries:
  "e \<in> set ConfigEnvironmentalVars \<Longrightarrow> snd e = ''SEMAPHORE_DB_HOST'' \<Longrightarrow>
     fst e = ''MySQL.Hostname'' \<or> fst e = ''Postgres.Hostname'' \<or> fst e = ''BoltDb.Hostname''"
  by (auto simp: ConfigEnvironmentalVars_def)

lemma skipped_under_mysql:
  assumes "Dialect c = ''mysql''"
  shows "\<not> skipped ''MySQL.Hostname'' c" and "skipped ''Postgres.Hostname'' c"
    and "\<not> skipped ''BoltDb.Hostname'' c"
  using assms
  by (simp_all add: skipped_def DbDriverMySQL_def DbDriverPostgres_def DbDriverBolt_def
      HasPrefix_def)

lemma env_host_step:
  assumes "is_ConfigType c" and "Dialect c = ''mysql''" and "e \<in> set ConfigEnvironmentalVars"
  shows "\<exists>c'. env_entry env_host e c = Inr c' \<and> is_ConfigType c' \<and> Dialect c' = ''mysql''
           \<and> lookup [''BoltDb'', ''Hostname''] c'
               = (if fst e = ''BoltDb.Hostname'' then Some (VString ''db1'')
                  else lookup [''BoltDb'', ''Hostname''] c)"
proof (cases "snd e = ''SEMAPHORE_DB_HOST''")
  case False
  then have "env_host (snd e) = None" by (simp add: env_host_def)
  then have "env_entry env_host e c = Inr c" by (rule env_entry_unset)
  moreover from False assms(3) have "fst e \<noteq> ''BoltDb.Hostname''"
    by (auto simp: ConfigEnvironmentalVars_def)
  ultimately show ?thesis using assms(1,2) by simp
next
  case True
  then have env: "env_host (snd e) = Some ''db1''" by (simp add: env_host_def)
  from host_entries [OF assms(3) True]
  consider "fst e = ''MySQL.Hostname''" | "fst e = ''Postgres.Hostname''"
    | "fst e = ''BoltDb.Hostname''" by blast
  then show ?thesis
  proof cases
    case 1
    from DbConfig_Hostname [OF assms(1), of "''MySQL''"] obtain h where
      h: "lookup [''MySQL'', ''Hostname''] c = Some (VString h)"
      by (auto simp: ConfigType_fields_def)
    let ?c' = "store [''MySQL'', ''Hostname''] (VString ''db1'') c"
    have "env_entry env_host e c = setConfigValue ''MySQL.Hostname'' (VString ''db1'') c"
      using env_entry_set [of e c env_host "''db1''"] env skipped_under_mysql(1) [OF assms(2)] 1
      by simp
    also have "\<dots> = Inr ?c'"
      using setConfigValue_string [of "''MySQL.Hostname''" c h "''db1''"] h
      by (simp only: Split_MySQL_Hostname)
    finally have r: "env_entry env_host e c = Inr ?c'" .
    have ok: "is_ConfigType ?c'"
      using assms(1) h by (rule is_ConfigType_store) simp_all
    have di: "Dialect ?c' = ''mysql''"
      using assms(2) by (simp add: Dialect_store_other_path del: store.simps)
    have bh: "lookup [''BoltDb'', ''Hostname''] ?c' = lookup [''BoltDb'', ''Hostname''] c"
      by (rule lookup_store_other_path) simp
    from r ok di bh 1 show ?thesis by simp
  next
    case 2
    have "env_entry env_host e c = Inr c"
      using env_entry_skipped [of e c env_host] skipped_under_mysql(2) [OF assms(2)] 2 by simp
    with assms(1,2) 2 show ?thesis by simp
  next
    case 3
    from DbConfig_Hostname [OF assms(1), of "''BoltDb''"] obtain h where
      h: "lookup [''BoltDb'', ''Hostname''] c = Some (VString h)"
      by (auto simp: ConfigType_fields_def)
    let ?c' = "store [''BoltDb'', ''Hostname''] (VString ''db1'') c"
    have "env_entry env_host e c = setConfigValue ''BoltDb.Hostname'' (VString ''db1'') c"
      using env_entry_set [of e c env_host "''db1''"] env skipped_under_mysql(3) [OF assms(2)] 3
      by simp
    also have "\<dots> = Inr ?c'"
      using setConfigValue_string [of "''BoltDb.Hostname''" c h "''db1''"] h
      by (simp only: Split_BoltDb_Hostname)
    finally have r: "env_entry env_host e c = Inr ?c'" .
    have ok: "is_ConfigType ?c'"
      using assms(1) h by (rule is_ConfigType_store) simp_all
    have di: "Dialect ?c' = ''mysql''"
      using assms(2) by (simp add: Dialect_store_other_path del: store.simps)
    have bh: "lookup [''BoltDb'', ''Hostname''] ?c' = Some (VString ''db1'')"
      using h by (rule lookup_store)
    from r ok di bh 3 show ?thesis by simp
  qed
qed

lemma env_host_loop:
  assumes "is_ConfigType c" and "Dialect c = ''mysql''" and "set xs \<subseteq> set ConfigEnvironmentalVars"
  shows "\<exists>c'. env_loop env_host xs c = Inr c' \<and> is_ConfigType c' \<and> Dialect c' = ''mysql''
           \<and> lookup [''BoltDb'', ''Hostname''] c'
               = (if ''BoltDb.Hostname'' \<in> fst ` set xs then Some (VString ''db1'')
                  else lookup [''BoltDb'', ''Hostname''] c)"
  using assms
proof (induction xs arbitrary: c)
  case Nil
  then show ?case by simp
next
  case (Cons e xs)
  from Cons.prems(3) have e: "e \<in> set ConfigEnvironmentalVars"
    and xs: "set xs \<subseteq> set ConfigEnvironmentalVars" by simp_all
  from env_host_step [OF Cons.prems(1,2) e] obtain c1 where
    c1: "env_entry env_host e c = Inr c1" "is_ConfigType c1" "Dialect c1 = ''mysql''"
      "lookup [''BoltDb'', ''Hostname''] c1
         = (if fst e = ''BoltDb.Hostname'' then Some (VString ''db1'')
            else lookup [''BoltDb'', ''Hostname''] c)" by blast
  from Cons.IH [OF c1(2,3) xs] obtain c2 where
    c2: "env_loop env_host xs c1 = Inr c2" "is_ConfigType c2" "Dialect c2 = ''mysql''"
      "lookup [''BoltDb'', ''Hostname''] c2
         = (if ''BoltDb.Hostname'' \<in> fst ` set xs then Some (VString ''db1'')
            else lookup [''BoltDb'', ''Hostname''] c1)" by blast
  have "env_loop env_host (e # xs) c = Inr c2" by (simp add: c1(1) c2(1))
  moreover have "lookup [''BoltDb'', ''Hostname''] c2
      = (if ''BoltDb.Hostname'' \<in> fst ` set (e # xs) then Some (VString ''db1'')
         else lookup [''BoltDb'', ''Hostname''] c)"
    using c1(4) c2(4) by (auto simp del: lookup.simps)
  ultimately show ?case using c2(2,3) by blast
qed

lemma cfg_valid_Dialect: "Dialect cfg_valid = ''mysql''"
  by (simp add: Dialect_def str_field_def cfg_valid_lookup del: lookup.simps)

text \<open>
  Claim C1. The record selects the dialect \<^verbatim>\<open>mysql\<close> and the environment sets
  \<^verbatim>\<open>SEMAPHORE_DB_HOST\<close>. Whatever the order in which the table is ranged over, the
  environment stage returns normally, the dialect is still \<^verbatim>\<open>mysql\<close>, and the host name
  of the sub-record \<^verbatim>\<open>BoltDb\<close>, empty before, is the value of the variable: the test of
  line 411 looks for \<^verbatim>\<open>BoldDb\<close>, which no attribute contains.
\<close>

theorem loadConfigEnvironment_writes_BoltDb_under_mysql:
  assumes "range_order iter"
  shows "\<exists>c'. loadConfigEnvironment iter env_host cfg_valid = Inr c'
           \<and> Dialect cfg_valid = DbDriverMySQL \<and> Dialect c' = DbDriverMySQL
           \<and> lookup [''BoltDb'', ''Hostname''] cfg_valid = Some (VString [])
           \<and> lookup [''BoltDb'', ''Hostname''] c' = Some (VString ''db1'')"
proof -
  have tbl: "set (iter ConfigEnvironmentalVars) = set ConfigEnvironmentalVars"
    using assms by (rule range_order_set)
  have bh: "''BoltDb.Hostname'' \<in> fst ` set (iter ConfigEnvironmentalVars)"
    unfolding tbl by (simp add: ConfigEnvironmentalVars_def)
  from env_host_loop [OF cfg_valid_ok cfg_valid_Dialect, of "iter ConfigEnvironmentalVars"] tbl
  obtain c' where "env_loop env_host (iter ConfigEnvironmentalVars) cfg_valid = Inr c'"
    "Dialect c' = ''mysql''"
    "lookup [''BoltDb'', ''Hostname''] c'
       = (if ''BoltDb.Hostname'' \<in> fst ` set (iter ConfigEnvironmentalVars)
          then Some (VString ''db1'') else lookup [''BoltDb'', ''Hostname''] cfg_valid)"
    by blast
  with bh show ?thesis
    by (auto simp: loadConfigEnvironment_def DbDriverMySQL_def cfg_valid_Dialect cfg_valid_hosts
        simp del: lookup.simps)
qed

theorem loadConfigEnvironment_writes_BoltDb_under_mysql_witness:
  "range_order id
   \<and> (\<exists>c'. loadConfigEnvironment id env_host cfg_valid = Inr c'
          \<and> Dialect cfg_valid = DbDriverMySQL \<and> Dialect c' = DbDriverMySQL
          \<and> lookup [''BoltDb'', ''Hostname''] cfg_valid = Some (VString [])
          \<and> lookup [''BoltDb'', ''Hostname''] c' = Some (VString ''db1''))"
  using loadConfigEnvironment_writes_BoltDb_under_mysql [OF range_order_id] range_order_id
  by (intro conjI)

lemma GetHostname_effective: "GetHostname env d = effective_hostname env d"
  by (simp add: GetHostname_def effective_hostname_def Getenv_def Let_def split: option.splits)

lemma zero_DbConfig_Dialect: "Dialect zero_DbConfig = []"
  by (simp add: Dialect_def str_field_def zero_DbConfig_def struct_fields_def DbConfig_fields_def)

text \<open>
  Claim C2. \<^verbatim>\<open>GetDialect\<close> returns the selector when it is not empty; else the first
  dialect, in the order MySQL, BoltDb, Postgres, whose sub-record has a non-empty effective
  host name; else the error. In that last case \<^verbatim>\<open>GetDBConfig\<close> returns the same error
  with the zero \<^verbatim>\<open>DbConfig\<close>, on which \<^verbatim>\<open>GetConnectionString\<close> returns an error and the
  empty string.
\<close>

theorem GetDialect_selector_then_first_present:
  "GetDialect env conf =
     (if Dialect conf \<noteq> [] then (Dialect conf, None)
      else (case first_present env conf of
              Some dialect \<Rightarrow> (dialect, None)
            | None \<Rightarrow> ([], Some (DialectError ''database configuration not found''))))
   \<and> (Dialect conf = [] \<and> first_present env conf = None \<longrightarrow>
         GetDBConfig env conf
           = (zero_DbConfig, Some (DialectError ''database configuration not found''))
         \<and> GetConnectionString iter env (fst (GetDBConfig env conf)) includeDbName
           = ([], Some (DialectError ''unsupported database driver: '')))"
proof -
  have a: "GetDialect env conf =
     (if Dialect conf \<noteq> [] then (Dialect conf, None)
      else (case first_present env conf of
              Some dialect \<Rightarrow> (dialect, None)
            | None \<Rightarrow> ([], Some (DialectError ''database configuration not found''))))"
    by (simp add: GetDialect_def first_present_def IsPresent_def GetHostname_effective
        DbDriverMySQL_def DbDriverBolt_def DbDriverPostgres_def)
  have b: "GetDBConfig env conf
           = (zero_DbConfig, Some (DialectError ''database configuration not found''))"
    if "Dialect conf = []" "first_present env conf = None"
    using that by (simp add: GetDBConfig_def a)
  have c: "GetConnectionString iter env zero_DbConfig includeDbName
           = ([], Some (DialectError ''unsupported database driver: ''))"
    by (simp add: GetConnectionString_def Let_def zero_DbConfig_Dialect
        DbDriverMySQL_def DbDriverBolt_def DbDriverPostgres_def)
  from a b c show ?thesis by simp
qed

lemma option_text_not_Nil [simp]: "option_text e \<noteq> []"
  by (simp add: option_text_def)

lemma Join_option_texts_not_Nil: "es \<noteq> [] \<Longrightarrow> Join (map option_text es) sep \<noteq> []"
proof (cases es)
  case Nil
  then show "es \<noteq> [] \<Longrightarrow> ?thesis" by simp
next
  case (Cons e es')
  then show ?thesis by (cases es') simp_all
qed

lemma query_loop_Join:
  "query_loop es str =
     (if es = [] then str
      else (if str \<noteq> [] then str @ ''&'' else []) @ Join (map option_text es) ''&'')"
proof (induction es arbitrary: str)
  case Nil
  show ?case by simp
next
  case (Cons e es)
  show ?case
  proof (cases es)
    case Nil
    then show ?thesis by (simp add: option_text_def)
  next
    case (Cons e' es')
    with Cons.IH [of "(if str \<noteq> [] then str @ ''&'' else str) @ fst e @ ''='' @ snd e"]
    show ?thesis by (simp add: option_text_def)
  qed
qed

lemma mapToQueryString_Join:
  "mapToQueryString iter m =
     (if iter m = [] then [] else ''?'' @ Join (map option_text (iter m)) ''&'')"
  using Join_option_texts_not_Nil [of "iter m" "''&''"]
  by (simp add: mapToQueryString_def query_loop_Join Let_def)

lemma map_of_map_assign: "map_of (map_assign k v m) = (map_of m)(k \<mapsto> v)"
  by (induction m) auto

lemma keys_map_assign: "set (map fst (map_assign k v m)) = insert k (set (map fst m))"
  by (induction m) auto

lemma distinct_map_assign:
  "distinct (map fst m) \<Longrightarrow> distinct (map fst (map_assign k v m))"
proof (induction m)
  case Nil
  show ?case by simp
next
  case (Cons e m)
  then show ?case using keys_map_assign [of k v m] by auto
qed

lemma distinct_merge_options:
  "distinct (map fst m) \<Longrightarrow> distinct (map fst (merge_options xs m))"
  by (induction xs arbitrary: m) (simp_all add: distinct_map_assign)

lemma map_of_merge_options:
  "distinct (map fst xs) \<Longrightarrow> map_of (merge_options xs m) = map_of m ++ map_of xs"
proof (induction xs arbitrary: m)
  case Nil
  show ?case by simp
next
  case (Cons e xs)
  from Cons.prems have notin: "map_of xs (fst e) = None" and d: "distinct (map fst xs)"
    by (simp_all add: map_of_eq_None_iff)
  have "map_of (merge_options (e # xs) m) = (map_of m)(fst e \<mapsto> snd e) ++ map_of xs"
    by (simp only: merge_options.simps Cons.IH [OF d] map_of_map_assign)
  also have "\<dots> = map_of m ++ map_of (e # xs)"
    using notin by (cases e) (auto simp: fun_eq_iff map_add_def split: option.splits)
  finally show ?case .
qed

lemma range_order_distinct:
  assumes "range_order iter"
  shows "distinct (map fst (iter m)) \<longleftrightarrow> distinct (map fst m)"
proof -
  from assms have "mset (iter m) = mset m" by (simp add: range_order_def)
  then have "mset (map fst (iter m)) = mset (map fst m)" by simp
  then show ?thesis by (rule mset_eq_imp_distinct_iff)
qed

lemma range_order_map_of:
  assumes "range_order iter" and "distinct (map fst m)"
  shows "map_of (iter m) = map_of m"
  using assms range_order_distinct [OF assms(1), of m] range_order_set [OF assms(1), of m]
  by (simp add: map_of_inject_set)

lemma range_order_Nil: "range_order iter \<Longrightarrow> iter [] = []"
  using range_order_set [of iter "[]"] by simp

lemma two_orders:
  assumes "mset xs = mset [a, b]"
  shows "xs = [a, b] \<or> xs = [b, a]"
proof -
  from assms have "length xs = 2" using mset_eq_length by fastforce
  then obtain x y where xs: "xs = [x, y]"
    by (cases xs; cases "tl xs") auto
  with assms have "{#x, y#} = {#a, b#}" by simp
  then have "(x = a \<and> y = b) \<or> (x = b \<and> y = a)"
    by (auto simp: add_eq_conv_ex)
  with xs show ?thesis by auto
qed

lemma Contains_Join:
  "e \<in> set es \<Longrightarrow> Contains (pre @ Join (map option_text es) sep) (option_text e)"
proof (induction es arbitrary: pre)
  case Nil
  then show ?case by simp
next
  case (Cons x es)
  show ?case
  proof (cases es)
    case Nil
    with Cons.prems have "e = x" by simp
    with Nil show ?thesis using Contains_infix [of pre "option_text e" "[]"] by simp
  next
    case (Cons y ys)
    show ?thesis
    proof (cases "e = x")
      case True
      then show ?thesis
        using Contains_infix [of pre "option_text e" "sep @ Join (map option_text es) sep"] Cons
        by simp
    next
      case False
      with Cons.prems have "e \<in> set es" by simp
      from Cons.IH [OF this, of "pre @ option_text x @ sep"] Cons show ?thesis by simp
    qed
  qed
qed

lemma builtin_keys: "distinct (map fst builtin_options)"
  by (simp add: builtin_options_def)

text \<open>
  Claim C3. For the MySQL dialect the connection string is the descriptor
  \<^verbatim>\<open>user:pass@tcp(host)/name\<close> of the effective values (the name only when asked for),
  a question mark, and the options joined by \<^verbatim>\<open>&\<close> as \<^verbatim>\<open>key=value\<close>. The options are
  the entries of the built-in map overwritten by the user's, each key once, in the order
  the runtime yields them. Without user options they are the two built-in ones, in either
  order. A user option is among them with the user's value, no other value stands for its
  key, and its text \<^verbatim>\<open>key=value\<close> is part of the connection string.
\<close>

theorem mysql_connection_string:
  assumes "range_order iter" and "Dialect d = DbDriverMySQL"
    and "distinct (map fst (Options d))"
  shows "\<exists>entries.
     GetConnectionString iter env d includeDbName
       = (GetUsername env d @ '':'' @ GetPassword env d @ ''@tcp('' @ GetHostname env d @ '')/''
            @ (if includeDbName then GetDbName env d else [])
            @ ''?'' @ Join (map option_text entries) ''&'', None)
     \<and> distinct (map fst entries)
     \<and> map_of entries = map_of builtin_options ++ map_of (Options d)
     \<and> (Options d = [] \<longrightarrow>
           entries = [(''parseTime'', ''true''), (''interpolateParams'', ''true'')]
           \<or> entries = [(''interpolateParams'', ''true''), (''parseTime'', ''true'')])
     \<and> (\<forall>k v. (k, v) \<in> set (Options d) \<longrightarrow>
           (k, v) \<in> set entries \<and> (\<forall>v'. (k, v') \<in> set entries \<longrightarrow> v' = v)
           \<and> Contains (fst (GetConnectionString iter env d includeDbName)) (k @ ''='' @ v))"
proof -
  let ?user = "iter (Options d)"
  let ?options = "merge_options ?user builtin_options"
  let ?entries = "iter ?options"
  let ?desc = "GetUsername env d @ '':'' @ GetPassword env d @ ''@tcp('' @ GetHostname env d
      @ '')/'' @ (if includeDbName then GetDbName env d else [])"
  have du: "distinct (map fst ?user)"
    using assms(3) range_order_distinct [OF assms(1)] by simp
  have mu: "map_of ?user = map_of (Options d)"
    using assms(1,3) by (rule range_order_map_of)
  have dopt: "distinct (map fst ?options)"
    using builtin_keys by (rule distinct_merge_options)
  have mopt: "map_of ?options = map_of builtin_options ++ map_of (Options d)"
    using map_of_merge_options [OF du, of builtin_options] mu by simp
  have de: "distinct (map fst ?entries)"
    using dopt range_order_distinct [OF assms(1)] by simp
  have me: "map_of ?entries = map_of builtin_options ++ map_of (Options d)"
    using range_order_map_of [OF assms(1) dopt] mopt by simp
  have "(map_of builtin_options ++ map_of (Options d)) ''parseTime'' \<noteq> None"
    by (simp add: builtin_options_def map_add_def split: option.splits)
  then have "map_of ?entries ''parseTime'' \<noteq> None" by (simp add: me)
  then have ne: "?entries \<noteq> []" by auto
  have res: "GetConnectionString iter env d includeDbName
       = (?desc @ ''?'' @ Join (map option_text ?entries) ''&'', None)"
    using assms(2) ne
    by (simp add: GetConnectionString_def Let_def mapToQueryString_Join
        DbDriverMySQL_def DbDriverBolt_def)
  have none: "?entries = [(''parseTime'', ''true''), (''interpolateParams'', ''true'')]
           \<or> ?entries = [(''interpolateParams'', ''true''), (''parseTime'', ''true'')]"
    if "Options d = []"
  proof -
    from that have "?options = builtin_options"
      by (simp add: range_order_Nil [OF assms(1)])
    moreover have "mset (iter builtin_options) = mset builtin_options"
      using assms(1) by (simp add: range_order_def)
    ultimately show ?thesis
      using two_orders [of "iter builtin_options" "(''parseTime'', ''true'')"
          "(''interpolateParams'', ''true'')"]
      by (simp add: builtin_options_def)
  qed
  have user: "(k, v) \<in> set ?entries \<and> (\<forall>v'. (k, v') \<in> set ?entries \<longrightarrow> v' = v)
           \<and> Contains (fst (GetConnectionString iter env d includeDbName)) (k @ ''='' @ v)"
    if "(k, v) \<in> set (Options d)" for k v
  proof -
    from that assms(3) have "map_of (Options d) k = Some v" by simp
    then have "map_of ?entries k = Some v" by (simp add: me)
    then have a: "(k, v) \<in> set ?entries" by (rule map_of_SomeD)
    have b: "\<forall>v'. (k, v') \<in> set ?entries \<longrightarrow> v' = v"
    proof (intro allI impI)
      fix v' assume "(k, v') \<in> set ?entries"
      with de have "map_of ?entries k = Some v'" by (simp only: map_of_eq_Some_iff)
      with \<open>map_of ?entries k = Some v\<close> show "v' = v" by simp
    qed
    from Contains_Join [OF a, of "?desc @ ''?''" "''&''"]
    have "Contains (fst (GetConnectionString iter env d includeDbName)) (k @ ''='' @ v)"
      by (simp add: res option_text_def)
    with a b show ?thesis by blast
  qed
  have res': "GetConnectionString iter env d includeDbName
       = (GetUsername env d @ '':'' @ GetPassword env d @ ''@tcp('' @ GetHostname env d @ '')/''
            @ (if includeDbName then GetDbName env d else [])
            @ ''?'' @ Join (map option_text ?entries) ''&'', None)"
    using res by simp
  show ?thesis
    using res' de me none user by (intro exI [of _ ?entries]) blast
qed

lemma lookup_zero_DbConfig:
  "lookup [n] zero_DbConfig = map_of (zero_fields 0 DbConfig_fields) n"
  by (simp add: zero_DbConfig_def struct_fields_def split: option.splits)

lemmas eval_db = lookup_store_same lookup_store_other lookup_store_defined lookup_zero_DbConfig
  DbConfig_fields_def

lemma db_postgres_lookup:
  "lookup [''Dialect''] db_postgres = Some (VDbDriver ''postgres'')"
  "lookup [''Hostname''] db_postgres = Some (VString ''db1'')"
  "lookup [''Username''] db_postgres = Some (VString ''alice'')"
  "lookup [''Password''] db_postgres = Some (VString ''p@ss'')"
  "lookup [''DbName''] db_postgres = Some (VString ''semaphore'')"
  "lookup [''Options''] db_postgres = Some (VOptions [])"
  unfolding db_postgres_def
  by (simp_all add: eval_db del: store.simps lookup.simps)

lemma db_mysql_lookup:
  "lookup [''Dialect''] db_mysql = Some (VDbDriver ''mysql'')"
  "lookup [''Hostname''] db_mysql = Some (VString ''db1'')"
  "lookup [''Username''] db_mysql = Some (VString ''alice'')"
  "lookup [''Password''] db_mysql = Some (VString ''p@ss'')"
  "lookup [''DbName''] db_mysql = Some (VString ''semaphore'')"
  "lookup [''Options''] db_mysql = Some (VOptions [])"
  unfolding db_mysql_def
  by (simp_all add: db_postgres_lookup lookup_store_same lookup_store_other
      del: store.simps lookup.simps)

lemma db_mysql_options_lookup:
  "lookup [''Dialect''] db_mysql_options = Some (VDbDriver ''mysql'')"
  "lookup [''Hostname''] db_mysql_options = Some (VString ''db1'')"
  "lookup [''Username''] db_mysql_options = Some (VString ''alice'')"
  "lookup [''Password''] db_mysql_options = Some (VString ''p@ss'')"
  "lookup [''DbName''] db_mysql_options = Some (VString ''semaphore'')"
  "lookup [''Options''] db_mysql_options
     = Some (VOptions [(''parseTime'', ''false''), (''charset'', ''utf8'')])"
  unfolding db_mysql_options_def
  by (simp_all add: db_mysql_lookup lookup_store_same lookup_store_other
      del: store.simps lookup.simps)

lemmas db_getters = GetUsername_def GetPassword_def GetHostname_def GetDbName_def Getenv_def
  Dialect_def Options_def str_field_def Let_def

lemma zero_first_present: "first_present Map.empty zero_ConfigType = None"
  by (simp add: first_present_def effective_hostname_def sub_record_def str_field_def
      zero_DbConfig_lookup lookup_zero_DbConfig DbConfig_fields_def del: lookup.simps)

lemma zero_Dialect: "Dialect zero_ConfigType = []"
  by (simp add: Dialect_def str_field_def lookup_zero_top ConfigType_fields_def del: lookup.simps)

theorem GetDialect_selector_then_first_present_witness:
  "Dialect zero_ConfigType = [] \<and> first_present Map.empty zero_ConfigType = None
   \<and> GetDialect Map.empty zero_ConfigType
       = ([], Some (DialectError ''database configuration not found''))
   \<and> GetDBConfig Map.empty zero_ConfigType
       = (zero_DbConfig, Some (DialectError ''database configuration not found''))
   \<and> GetConnectionString id Map.empty (fst (GetDBConfig Map.empty zero_ConfigType)) True
       = ([], Some (DialectError ''unsupported database driver: ''))"
proof -
  note r = GetDialect_selector_then_first_present [of Map.empty zero_ConfigType id True]
  from r have a: "GetDialect Map.empty zero_ConfigType
       = ([], Some (DialectError ''database configuration not found''))"
    by (simp add: zero_Dialect zero_first_present)
  from r zero_Dialect zero_first_present
  have b: "GetDBConfig Map.empty zero_ConfigType
       = (zero_DbConfig, Some (DialectError ''database configuration not found''))"
    and c: "GetConnectionString id Map.empty (fst (GetDBConfig Map.empty zero_ConfigType)) True
       = ([], Some (DialectError ''unsupported database driver: ''))"
    by blast+
  show ?thesis
    by (intro conjI) (rule zero_Dialect zero_first_present a b c)+
qed

lemma db_mysql_values:
  "Dialect db_mysql = DbDriverMySQL" "Options db_mysql = []"
  "GetUsername Map.empty db_mysql = ''alice''" "GetPassword Map.empty db_mysql = ''p@ss''"
  "GetHostname Map.empty db_mysql = ''db1''" "GetDbName Map.empty db_mysql = ''semaphore''"
  by (simp_all add: db_getters db_mysql_lookup DbDriverMySQL_def del: lookup.simps)

lemma db_mysql_options_values:
  "Dialect db_mysql_options = DbDriverMySQL"
  "Options db_mysql_options = [(''parseTime'', ''false''), (''charset'', ''utf8'')]"
  "GetUsername Map.empty db_mysql_options = ''alice''"
  "GetPassword Map.empty db_mysql_options = ''p@ss''"
  "GetHostname Map.empty db_mysql_options = ''db1''"
  "GetDbName Map.empty db_mysql_options = ''semaphore''"
  by (simp_all add: db_getters db_mysql_options_lookup DbDriverMySQL_def del: lookup.simps)

theorem mysql_connection_string_witness:
  "range_order id \<and> Dialect db_mysql = DbDriverMySQL \<and> distinct (map fst (Options db_mysql))
   \<and> Options db_mysql = []
   \<and> (GetConnectionString id Map.empty db_mysql True
         = (''alice:p@ss@tcp(db1)/semaphore?parseTime=true&interpolateParams=true'', None)
       \<or> GetConnectionString id Map.empty db_mysql True
         = (''alice:p@ss@tcp(db1)/semaphore?interpolateParams=true&parseTime=true'', None))
   \<and> Dialect db_mysql_options = DbDriverMySQL
   \<and> distinct (map fst (Options db_mysql_options))
   \<and> (''parseTime'', ''false'') \<in> set (Options db_mysql_options)
   \<and> (\<exists>entries. GetConnectionString id Map.empty db_mysql_options True
          = (''alice:p@ss@tcp(db1)/semaphore?'' @ Join (map option_text entries) ''&'', None)
        \<and> (''parseTime'', ''false'') \<in> set entries
        \<and> (''parseTime'', ''true'') \<notin> set entries
        \<and> Contains (fst (GetConnectionString id Map.empty db_mysql_options True))
             ''parseTime=false'')"
proof -
  have di1: "distinct (map fst (Options db_mysql))" by (simp add: db_mysql_values)
  have di2: "distinct (map fst (Options db_mysql_options))"
    by (simp add: db_mysql_options_values)
  have u2: "(''parseTime'', ''false'') \<in> set (Options db_mysql_options)"
    by (simp add: db_mysql_options_values)
  note t1 = mysql_connection_string [OF range_order_id db_mysql_values(1) di1,
      of Map.empty True, unfolded db_mysql_values(3-6)]
  from t1 obtain es where e0: "GetConnectionString id Map.empty db_mysql True
       = (''alice'' @ '':'' @ ''p@ss'' @ ''@tcp('' @ ''db1'' @ '')/''
            @ (if True then ''semaphore'' else [])
            @ ''?'' @ Join (map option_text es) ''&'', None)"
    and o': "Options db_mysql = [] \<longrightarrow>
           es = [(''parseTime'', ''true''), (''interpolateParams'', ''true'')]
           \<or> es = [(''interpolateParams'', ''true''), (''parseTime'', ''true'')]"
    by blast
  from e0 have e1: "GetConnectionString id Map.empty db_mysql True
       = (''alice:p@ss@tcp(db1)/semaphore?'' @ Join (map option_text es) ''&'', None)"
    by simp
  from o' db_mysql_values(2)
  have o: "es = [(''parseTime'', ''true''), (''interpolateParams'', ''true'')]
           \<or> es = [(''interpolateParams'', ''true''), (''parseTime'', ''true'')]"
    by blast
  from o have "Join (map option_text es) ''&'' = ''parseTime=true&interpolateParams=true''
      \<or> Join (map option_text es) ''&'' = ''interpolateParams=true&parseTime=true''"
    by (auto simp: option_text_def)
  with e1 have r1: "GetConnectionString id Map.empty db_mysql True
         = (''alice:p@ss@tcp(db1)/semaphore?parseTime=true&interpolateParams=true'', None)
       \<or> GetConnectionString id Map.empty db_mysql True
         = (''alice:p@ss@tcp(db1)/semaphore?interpolateParams=true&parseTime=true'', None)"
    by auto
  note t2 = mysql_connection_string [OF range_order_id db_mysql_options_values(1) di2,
      of Map.empty True, unfolded db_mysql_options_values(3-6)]
  from t2 obtain entries where e0': "GetConnectionString id Map.empty db_mysql_options True
       = (''alice'' @ '':'' @ ''p@ss'' @ ''@tcp('' @ ''db1'' @ '')/''
            @ (if True then ''semaphore'' else [])
            @ ''?'' @ Join (map option_text entries) ''&'', None)"
    and u: "\<forall>k v. (k, v) \<in> set (Options db_mysql_options) \<longrightarrow>
           (k, v) \<in> set entries \<and> (\<forall>v'. (k, v') \<in> set entries \<longrightarrow> v' = v)
           \<and> Contains (fst (GetConnectionString id Map.empty db_mysql_options True))
                (k @ ''='' @ v)"
    by blast
  from e0' have e: "GetConnectionString id Map.empty db_mysql_options True
          = (''alice:p@ss@tcp(db1)/semaphore?'' @ Join (map option_text entries) ''&'', None)"
    by simp
  from u u2 have k: "(''parseTime'', ''false'') \<in> set entries
      \<and> (\<forall>v'. (''parseTime'', v') \<in> set entries \<longrightarrow> v' = ''false'')
      \<and> Contains (fst (GetConnectionString id Map.empty db_mysql_options True))
           (''parseTime'' @ ''='' @ ''false'')"
    by blast
  then have nt: "(''parseTime'', ''true'') \<notin> set entries" by auto
  from k have ct: "Contains (fst (GetConnectionString id Map.empty db_mysql_options True))
             ''parseTime=false''"
    by (simp del: Contains.simps)
  from e k nt ct have r2: "\<exists>entries. GetConnectionString id Map.empty db_mysql_options True
          = (''alice:p@ss@tcp(db1)/semaphore?'' @ Join (map option_text entries) ''&'', None)
        \<and> (''parseTime'', ''false'') \<in> set entries
        \<and> (''parseTime'', ''true'') \<notin> set entries
        \<and> Contains (fst (GetConnectionString id Map.empty db_mysql_options True))
             ''parseTime=false''"
    by blast
  show ?thesis
    by (intro conjI)
      (rule range_order_id db_mysql_values(1,2) di1 r1 db_mysql_options_values(1) di2 u2 r2)+
qed

end
